theory Spec2Isabelle
  imports Main "HOL-Library.Word" "HOL-Library.Log_Nat"
begin

section \<open>Bytes, slices and indexing as Python has them\<close>

text \<open>
  A Python \<open>bytes\<close> object is a list of 8-bit words; Python's integers are unbounded and
  are modelled by \<open>int\<close>. The exceptions the modelled functions can raise are the
  constructors of \<open>error\<close>; a result is \<open>error + 'a\<close> with \<open>Inl\<close> the exception.
  \<open>AssertionError\<close> and \<open>IndexError\<close> come from the repository's own statements, the
  others from the standard library's date rendering and text decoding.
\<close>

type_synonym byte = "8 word"
type_synonym bytes = "byte list"

datatype error =
  AssertionError | IndexError | ValueError | OverflowError | OSError | UnicodeDecodeError

text \<open>
  \<open>clamp_index i n\<close> is the way a slice bound \<open>i\<close> is brought into \<open>0..n\<close> for a
  sequence of length \<open>n\<close>: a negative bound counts from the end, and both ends saturate.
\<close>

definition clamp_index :: "int \<Rightarrow> nat \<Rightarrow> nat" where
  "clamp_index i n = (if i < 0 then nat (int n + i) else min (nat i) n)"

text \<open>\<open>py_slice xs a b\<close> is \<open>xs[a:b]\<close>; it never raises. \<open>xs[:b]\<close> is \<open>py_slice xs 0 b\<close>.\<close>

definition py_slice :: "'a list \<Rightarrow> int \<Rightarrow> int \<Rightarrow> 'a list" where
  "py_slice xs a b =
     (let lo = clamp_index a (length xs); hi = clamp_index b (length xs)
      in take (hi - lo) (drop lo xs))"

text \<open>
  \<open>py_index xs i\<close> is the subscript \<open>xs[i]\<close>: positions \<open>0 .. len(xs) - 1\<close> from the
  front, \<open>-1 .. -len(xs)\<close> from the back, and \<open>IndexError\<close> for every other \<open>i\<close>.
\<close>

definition py_index :: "'a list \<Rightarrow> int \<Rightarrow> error + 'a" where
  "py_index xs i =
     (if 0 \<le> i \<and> i < int (length xs) then Inr (xs ! nat i)
      else if i < 0 \<and> - int (length xs) \<le> i then Inr (xs ! nat (int (length xs) + i))
      else Inl IndexError)"

subsection \<open>\<open>unpack\<close> (hw5utils.py)\<close>

text \<open>The unsigned little-endian value of a byte string; the empty string is 0.\<close>

fun from_bytes_le :: "bytes \<Rightarrow> int" where
  "from_bytes_le [] = 0"
| "from_bytes_le (b # bs) = uint b + 256 * from_bytes_le bs"

text \<open>
  \<open>unpack data is_signed\<close> is \<open>int.from_bytes(data, byteorder="little", signed=is_signed)\<close>;
  every call in the repository leaves \<open>byteorder\<close> at its default. When signed, the
  value is read as two's complement over \<open>8 * len(data)\<close> bits.
\<close>

definition unpack :: "bytes \<Rightarrow> bool \<Rightarrow> int" where
  "unpack data is_signed =
     (let u = from_bytes_le data
      in if is_signed \<and> data \<noteq> [] \<and> 2 ^ (8 * length data - 1) \<le> u
         then u - 2 ^ (8 * length data) else u)"

subsection \<open>\<open>format(x, "08b")\<close> and \<open>int(s, 2)\<close>\<close>

text \<open>
  \<open>bin_digits n x\<close> are the \<open>n\<close> low binary digits of \<open>x\<close>, most significant first.
  \<open>format(x, "08b")\<close> pads the binary numeral of \<open>x\<close> with zeros to width 8; the decoder
  applies it to the value of one byte, where it is \<open>bin_digits 8\<close>.
\<close>

fun bin_digits :: "nat \<Rightarrow> nat \<Rightarrow> string" where
  "bin_digits 0 x = []"
| "bin_digits (Suc n) x = bin_digits n (x div 2) @ [if odd x then CHR ''1'' else CHR ''0'']"

definition format_08b :: "int \<Rightarrow> string" where
  "format_08b x = bin_digits 8 (nat x)"

text \<open>\<open>int_base2 s\<close> is \<open>int(s, 2)\<close> on a string of binary digits.\<close>

definition int_base2 :: "string \<Rightarrow> int" where
  "int_base2 s = foldl (\<lambda>a c. 2 * a + (if c = CHR ''1'' then 1 else 0)) 0 s"

section \<open>The data-run decoder (\<open>ParseMFT.parse_data_attr\<close>, istat_ntfs.py)\<close>

text \<open>
  The \<open>while first_byte != 0\<close> loop. Its state is the run-list cursor, the running
  cluster value \<open>prev_first_cluster\<close> and the list built so far. \<open>first_byte\<close> is read by
  \<open>attribute[runlist_offset]\<close> before the loop and again at the end of its body, which
  is the read at the head of each call here; out of range it raises \<open>IndexError\<close>.
  Both field reads pass \<open>True\<close> for \<open>signed\<close>. \<open>list(range(a, a + length))\<close> raises
  \<open>OverflowError\<close> when the range has more than \<open>sys.maxsize = 2 ^ 63 - 1\<close> elements
  (a 64-bit CPython), which a length field of 9 to 15 bytes can ask for; a negative
  length gives the empty list. The memory a long list needs is not modelled.
\<close>

function run_loop :: "bytes \<Rightarrow> int \<Rightarrow> int \<Rightarrow> int list \<Rightarrow> error + int list" where
  "run_loop attribute runlist_offset prev_first_cluster sector_list =
     (case py_index attribute runlist_offset of
        Inl e \<Rightarrow> Inl e
      | Inr first_byte \<Rightarrow>
          if first_byte = 0 then Inr sector_list
          else
            let first_nibble = py_slice (format_08b (unpack (py_slice attribute runlist_offset (runlist_offset + 1)) False)) 0 4;
                second_nibble = py_slice (format_08b (unpack (py_slice attribute runlist_offset (runlist_offset + 1)) False)) 4 8;
                offset_nibble = int_base2 first_nibble;
                run_length_nibble = int_base2 second_nibble;
                byte_offset = runlist_offset + run_length_nibble + 1;
                length = unpack (py_slice attribute (runlist_offset + 1) byte_offset) True;
                cluster = unpack (py_slice attribute byte_offset (byte_offset + offset_nibble)) True;
                prev_first_cluster' = prev_first_cluster + cluster;
                curr_sec_list = [prev_first_cluster' .. prev_first_cluster' + length - 1]
            in if 2 ^ 63 \<le> length then Inl OverflowError
               else run_loop attribute (byte_offset + offset_nibble) prev_first_cluster'
                      (sector_list @ curr_sec_list))"
  by pat_completeness auto

termination run_loop
proof (relation "measure (\<lambda>(attribute, runlist_offset, _, _). nat (int (length attribute) - runlist_offset))")
  show "wf (measure (\<lambda>(attribute, runlist_offset, _, _). nat (int (length attribute) - runlist_offset)))"
    by simp
next
  fix attribute :: bytes and runlist_offset prev_first_cluster :: int
    and sector_list :: "int list" and first_byte :: byte
    and first_nibble second_nibble :: string
    and offset_nibble run_length_nibble byte_offset len cluster pfc :: int
    and curr :: "int list"
  assume ix: "py_index attribute runlist_offset = Inr first_byte"
    and nib: "offset_nibble = int_base2 first_nibble" "run_length_nibble = int_base2 second_nibble"
    and bo: "byte_offset = runlist_offset + run_length_nibble + 1"
  have nonneg: "0 \<le> a \<Longrightarrow> 0 \<le> foldl (\<lambda>a c. 2 * a + (if c = CHR ''1'' then 1 else 0)) (a::int) s"
    for a s by (induction s arbitrary: a) auto
  have "0 \<le> offset_nibble" "0 \<le> run_length_nibble"
    using nib nonneg [of 0] by (simp_all add: int_base2_def)
  with bo have "runlist_offset < byte_offset + offset_nibble"
    by simp
  moreover from ix have "runlist_offset < int (length attribute)"
    by (auto simp: py_index_def split: if_splits)
  ultimately
  show "((attribute, byte_offset + offset_nibble, pfc, sector_list @ curr),
         (attribute, runlist_offset, prev_first_cluster, sector_list))
        \<in> measure (\<lambda>(attribute, runlist_offset, _, _). nat (int (length attribute) - runlist_offset))"
    by simp
qed

declare run_loop.simps [simp del]

section \<open>The attribute walker (\<open>get_attr_by_id\<close>, hw5utils.py)\<close>

text \<open>
  The \<open>while unpack(attr_full_entry[:4]) != attr_id\<close> loop, with its three variables as
  the state. The body only slices, so it raises nothing; the loop has no other exit, and
  \<open>None\<close> is the run that never leaves it.
\<close>

partial_function (option) get_attr_loop ::
  "int \<Rightarrow> bytes \<Rightarrow> bytes \<Rightarrow> int \<Rightarrow> int \<Rightarrow> (bytes \<times> int) option" where
  "get_attr_loop attr_id entry attr_full_entry prev_attr_end curr_attr_end =
     (if unpack (py_slice attr_full_entry 0 4) False \<noteq> attr_id then
        let attr_start = prev_attr_end;
            length = unpack (py_slice entry (attr_start + 4) (attr_start + 8)) False;
            curr_attr_end = attr_start + length;
            attr_full_entry = py_slice entry attr_start curr_attr_end;
            prev_attr_end = curr_attr_end
        in get_attr_loop attr_id entry attr_full_entry prev_attr_end curr_attr_end
      else Some (attr_full_entry, curr_attr_end))"

definition get_attr_by_id :: "int \<Rightarrow> bytes \<Rightarrow> int \<Rightarrow> (bytes \<times> int) option" where
  "get_attr_by_id attr_id entry prev_attr_end =
     (let attr_full_entry = [0, 0, 0, 0];
          curr_attr_end = prev_attr_end
      in get_attr_loop attr_id entry attr_full_entry prev_attr_end curr_attr_end)"

section \<open>The fixup corrector (\<open>apply_fixup\<close>, hw5utils.py)\<close>

definition FILE_signature :: bytes where
  "FILE_signature = [0x46, 0x49, 0x4C, 0x45]"

text \<open>
  The \<open>assert\<close> on the signature raises \<open>AssertionError\<close>; nothing else in the
  function can raise. The result is a new \<open>bytes\<close> value built by concatenation.
\<close>

definition apply_fixup :: "bytes \<Rightarrow> error + bytes" where
  "apply_fixup entry =
     (if py_slice entry 0 4 \<noteq> FILE_signature then Inl AssertionError
      else
        let fixup = unpack (py_slice entry 4 6) False;
            num_fixup_entries = unpack (py_slice entry 6 8) False;
            fixuprepl = py_slice entry (fixup + 2) (fixup + 2 * num_fixup_entries)
        in Inr (py_slice entry 0 510 @ py_slice fixuprepl 0 2 @ py_slice entry 512 1022 @ py_slice fixuprepl 2 4))"

section \<open>The entry parsers (\<open>ParseMFT\<close>, istat_ntfs.py)\<close>

subsection \<open>\<open>parse_entry_header\<close>\<close>

record header_dict =
  address :: int
  sequence :: int
  logfile_seq_num :: int
  links :: int
  allocated :: bool

definition parse_entry_header :: "int \<Rightarrow> bytes \<Rightarrow> header_dict" where
  "parse_entry_header addr entry =
     (let flag = unpack (py_slice entry 22 24) False
      in \<lparr>address = addr,
          sequence = unpack (py_slice entry 16 18) False,
          logfile_seq_num = unpack (py_slice entry 8 16) False,
          links = unpack (py_slice entry 18 20) False,
          allocated = (flag \<noteq> 0)\<rparr>)"

subsection \<open>\<open>parse_time\<close> (hw5utils.py)\<close>

text \<open>
  \<open>parse_time\<close> reads the tick count at \<open>header_length + index_range\<close> of the attribute,
  with \<open>header_length = 24\<close>, and hands it to \<open>_localtime_string\<close>. That function renders
  the instant through floating-point division and the host's local time zone; it is the
  parameter \<open>localtime_string\<close> here, which may raise. The function itself is modelled
  further down, after the parsers.
\<close>

definition parse_time :: "(int \<Rightarrow> error + 't) \<Rightarrow> bytes \<Rightarrow> int \<times> int \<Rightarrow> error + 't" where
  "parse_time localtime_string attribute index_range =
     (let header_length = 24;
          time_value = unpack (py_slice attribute (header_length + fst index_range)
                                               (header_length + snd index_range)) False
      in localtime_string time_value)"

text \<open>Sequencing of statements that may raise: the first exception ends the function.\<close>

definition bind_err :: "error + 'a \<Rightarrow> ('a \<Rightarrow> error + 'b) \<Rightarrow> error + 'b" where
  "bind_err m f = (case m of Inl e \<Rightarrow> Inl e | Inr x \<Rightarrow> f x)"

subsection \<open>\<open>parse_std_info_attr\<close>\<close>

record 't std_info_dict =
  created :: 't
  modified :: 't
  mft_modified :: 't
  accessed :: 't
  flags :: int
  std_info_size :: int
  std_info_end :: int

definition parse_std_info_attr ::
  "(int \<Rightarrow> error + 't) \<Rightarrow> bytes \<Rightarrow> int \<Rightarrow> (error + 't std_info_dict) option" where
  "parse_std_info_attr localtime_string entry entry_start =
     (case get_attr_by_id 0x10 entry entry_start of
        None \<Rightarrow> None
      | Some found \<Rightarrow> Some
         (let attribute = fst found;
              std_info_end = snd found;
              content_offset = unpack (py_slice attribute 20 22) False;
              content = py_slice attribute content_offset (std_info_end + 1)
          in bind_err (parse_time localtime_string attribute (0, 8)) (\<lambda>created.
             bind_err (parse_time localtime_string attribute (8, 16)) (\<lambda>modified.
             bind_err (parse_time localtime_string attribute (16, 24)) (\<lambda>mft_modified.
             bind_err (parse_time localtime_string attribute (24, 32)) (\<lambda>accessed.
             Inr \<lparr>created = created, modified = modified, mft_modified = mft_modified,
                  accessed = accessed,
                  flags = unpack (py_slice content 32 36) False,
                  std_info_size = unpack (py_slice attribute 16 20) False,
                  std_info_end = std_info_end\<rparr>))))))"

subsection \<open>\<open>parse_file_name_attr\<close>\<close>

text \<open>
  The name is \<open>content[66 : 66 + content[64] * 2].decode("utf-16-le")\<close>; the codec is
  the parameter \<open>decode\<close>. The fields are computed in the order of the source, so the
  first statement that raises decides the exception.
\<close>

record ('t, 'n) file_name_dict =
  fn_parent :: int
  fn_sequence :: int
  fn_allocated_size :: int
  fn_actual_size :: int
  fn_created :: 't
  fn_modified :: 't
  fn_mft_modified :: 't
  fn_accessed :: 't
  fn_flags :: int
  file_name_size :: int
  fn_name :: 'n
  file_name_end :: int

definition parse_file_name_attr ::
  "(int \<Rightarrow> error + 't) \<Rightarrow> (bytes \<Rightarrow> error + 'n) \<Rightarrow> bytes \<Rightarrow> int
     \<Rightarrow> (error + ('t, 'n) file_name_dict) option" where
  "parse_file_name_attr localtime_string decode entry prev_entry_end =
     (case get_attr_by_id 0x30 entry prev_entry_end of
        None \<Rightarrow> None
      | Some found \<Rightarrow> Some
         (let attribute = fst found;
              file_name_end = snd found;
              content_offset = unpack (py_slice attribute 20 22) False;
              content = py_slice attribute content_offset (file_name_end + 1)
          in bind_err (parse_time localtime_string attribute (8, 16)) (\<lambda>created.
             bind_err (parse_time localtime_string attribute (16, 24)) (\<lambda>modified.
             bind_err (parse_time localtime_string attribute (24, 32)) (\<lambda>mft_modified.
             bind_err (parse_time localtime_string attribute (32, 40)) (\<lambda>accessed.
             bind_err (py_index content 64) (\<lambda>name_length.
             bind_err (decode (py_slice content 66 (66 + uint name_length * 2))) (\<lambda>name.
             Inr \<lparr>fn_parent = unpack (py_slice content 0 6) False,
                  fn_sequence = unpack (py_slice content 6 8) False,
                  fn_allocated_size = unpack (py_slice content 40 48) False,
                  fn_actual_size = unpack (py_slice content 48 56) False,
                  fn_created = created, fn_modified = modified,
                  fn_mft_modified = mft_modified, fn_accessed = accessed,
                  fn_flags = unpack (py_slice content 56 60) False,
                  file_name_size = unpack (py_slice attribute 16 20) False,
                  fn_name = name,
                  file_name_end = file_name_end\<rparr>))))))))"

subsection \<open>\<open>parse_data_attr\<close>\<close>

text \<open>
  The dictionary has the keys \<open>type\<close> and \<open>size\<close>, and \<open>init_size\<close> and \<open>sector_list\<close>
  only for a non-resident attribute: the two optional fields.
\<close>

record data_dict =
  data_type :: int
  data_size :: int
  init_size :: "int option"
  sector_list :: "int list option"

definition parse_data_attr :: "bytes \<Rightarrow> int \<Rightarrow> (error + data_dict) option" where
  "parse_data_attr entry prev_attr_end =
     (case get_attr_by_id 0x80 entry prev_attr_end of
        None \<Rightarrow> None
      | Some found \<Rightarrow> Some
         (let attribute = fst found
          in bind_err (py_index attribute 8) (\<lambda>non_res_flag.
            if non_res_flag = 0 then
              Inr \<lparr>data_type = 0x80, data_size = unpack (py_slice attribute 16 20) False,
                   init_size = None, sector_list = None\<rparr>
            else
              let size = unpack (py_slice attribute 48 56) False;
                  init = unpack (py_slice attribute 56 63) False;
                  runlist_offset = unpack (py_slice attribute 32 34) False
              in bind_err (run_loop attribute runlist_offset 0 []) (\<lambda>sectors.
                   Inr \<lparr>data_type = 0x80, data_size = size,
                        init_size = Some init, sector_list = Some sectors\<rparr>))))"

section \<open>The timestamp decoder (\<open>_localtime_string\<close>, hw5utils.py)\<close>

subsection \<open>Python floats\<close>

text \<open>
  A Python \<open>float\<close> is an IEEE 754 double. A finite double is the rational number it
  denotes, so floats are values of type \<open>rat\<close> and every floating-point operation is the
  exact operation followed by \<open>to_double\<close>, rounding to the nearest double, a tie going to
  the even mantissa. \<open>binade q\<close> is the exponent \<open>p\<close> with \<open>2 ^ p \<le> |q| < 2 ^ (p + 1)\<close>;
  the doubles of that binade are the multiples of \<open>2 ^ (p - 52)\<close>. Overflow to infinity
  and subnormal numbers lie far outside the magnitudes this function computes with and
  are not modelled.
\<close>

definition round_half_even :: "rat \<Rightarrow> int" where
  "round_half_even r =
     (let f = \<lfloor>r\<rfloor>; d = r - of_int f
      in if d < 1 / 2 then f else if 1 / 2 < d then f + 1 else if even f then f else f + 1)"

definition binade :: "rat \<Rightarrow> int" where
  "binade q = (if 1 \<le> \<bar>q\<bar> then bitlen \<lfloor>\<bar>q\<bar>\<rfloor> - 1 else - bitlen (\<lceil>1 / \<bar>q\<bar>\<rceil> - 1))"

definition to_double :: "rat \<Rightarrow> rat" where
  "to_double q =
     (if q = 0 then 0
      else let ulp = 2 powi (binade q - 52) in of_int (round_half_even (q / ulp)) * ulp)"

text \<open>\<open>int(x)\<close> and the integral part that \<open>modf\<close> returns: rounding towards zero.\<close>

definition trunc :: "rat \<Rightarrow> int" where
  "trunc x = (if 0 \<le> x then \<lfloor>x\<rfloor> else \<lceil>x\<rceil>)"

subsection \<open>The \<open>datetime\<close> library\<close>

text \<open>
  The calendar fields of a \<open>datetime\<close> object. \<open>civil_from_days\<close> gives year, month and
  day of the proleptic Gregorian calendar for a number of days counted from 1970-01-01.
\<close>

record datetime =
  dt_year :: int
  dt_month :: int
  dt_day :: int
  dt_hour :: int
  dt_minute :: int
  dt_second :: int
  dt_microsecond :: int

definition civil_from_days :: "int \<Rightarrow> int \<times> int \<times> int" where
  "civil_from_days days =
     (let z = days + 719468;
          era = z div 146097;
          doe = z mod 146097;
          yoe = (doe - doe div 1460 + doe div 36524 - doe div 146096) div 365;
          doy = doe - (365 * yoe + yoe div 4 - yoe div 100);
          mp = (5 * doy + 2) div 153;
          d = doy - (153 * mp + 2) div 5 + 1;
          m = (if mp < 10 then mp + 3 else mp - 9);
          y = yoe + era * 400 + (if m \<le> 2 then 1 else 0)
      in (y, m, d))"

text \<open>
  \<open>local_datetime utcoffset sec us\<close> is the \<open>datetime\<close> that \<open>fromtimestamp\<close> builds
  for the POSIX second \<open>sec\<close> and the microsecond \<open>us\<close> on a 64-bit POSIX host whose
  local time is \<open>utcoffset sec\<close> seconds east of UTC at that instant (the docstring of
  \<open>_localtime_string\<close> assumes EDT, \<open>-14400\<close>). It raises \<open>OverflowError\<close> when \<open>sec\<close>
  does not fit \<open>time_t\<close>, \<open>OSError\<close> when the C library's \<open>localtime\<close> cannot hold the
  year in its \<open>int\<close> field, and \<open>ValueError\<close> when the year is outside \<open>1 .. 9999\<close>.
\<close>

definition local_datetime :: "(int \<Rightarrow> int) \<Rightarrow> int \<Rightarrow> int \<Rightarrow> error + datetime" where
  "local_datetime utcoffset sec us =
     (if sec < - (2 ^ 63) \<or> 2 ^ 63 \<le> sec then Inl OverflowError
      else
        let wall = sec + utcoffset sec;
            ymd = civil_from_days (wall div 86400);
            r = wall mod 86400
        in if fst ymd - 1900 < - (2 ^ 31) \<or> 2 ^ 31 \<le> fst ymd - 1900 then Inl OSError
           else if fst ymd < 1 \<or> 9999 < fst ymd then Inl ValueError
           else Inr \<lparr>dt_year = fst ymd, dt_month = fst (snd ymd), dt_day = snd (snd ymd),
                     dt_hour = r div 3600, dt_minute = r mod 3600 div 60, dt_second = r mod 60,
                     dt_microsecond = us\<rparr>)"

text \<open>
  \<open>datetime.fromtimestamp(t)\<close> for a float \<open>t\<close>: \<open>modf\<close> splits it, the fractional part
  times \<open>1e6\<close> is rounded half to even to microseconds, and a result of \<open>1000000\<close> or a
  negative one is carried into the seconds.
\<close>

definition fromtimestamp :: "(int \<Rightarrow> int) \<Rightarrow> rat \<Rightarrow> error + datetime" where
  "fromtimestamp utcoffset t =
     (let intpart = trunc t;
          floatpart = to_double ((t - of_int intpart) * 1000000);
          us = round_half_even floatpart
      in if 1000000 \<le> us then local_datetime utcoffset (intpart + 1) (us - 1000000)
         else if us < 0 then local_datetime utcoffset (intpart - 1) (us + 1000000)
         else local_datetime utcoffset intpart us)"

text \<open>
  \<open>datetime.datetime(1970, 1, 1) + datetime.timedelta(seconds=n)\<close>: no time zone is
  involved, and a result outside the years \<open>1 .. 9999\<close> raises \<open>OverflowError\<close>.
\<close>

definition epoch_plus_seconds :: "int \<Rightarrow> error + datetime" where
  "epoch_plus_seconds n =
     (let ymd = civil_from_days (n div 86400);
          r = n mod 86400
      in if fst ymd < 1 \<or> 9999 < fst ymd then Inl OverflowError
         else Inr \<lparr>dt_year = fst ymd, dt_month = fst (snd ymd), dt_day = snd (snd ymd),
                   dt_hour = r div 3600, dt_minute = r mod 3600 div 60, dt_second = r mod 60,
                   dt_microsecond = 0\<rparr>)"

text \<open>
  \<open>dec_digits n x\<close> are the \<open>n\<close> low decimal digits of \<open>x\<close>: what \<open>%02d\<close>, \<open>%04d\<close> and
  \<open>{:07d}\<close> print for a number from 0 that has no more digits than that.
  \<open>strftime\<close> is \<open>dt.strftime("%Y-%m-%d %H:%M:%S")\<close>, the year in four digits as the
  library documents \<open>%Y\<close>.
\<close>

fun dec_digits :: "nat \<Rightarrow> int \<Rightarrow> string" where
  "dec_digits 0 x = []"
| "dec_digits (Suc n) x = dec_digits n (x div 10) @ [''0123456789'' ! nat (x mod 10)]"

definition strftime :: "datetime \<Rightarrow> string" where
  "strftime dt =
     dec_digits 4 (dt_year dt) @ ''-'' @ dec_digits 2 (dt_month dt) @ ''-''
       @ dec_digits 2 (dt_day dt) @ '' '' @ dec_digits 2 (dt_hour dt) @ '':''
       @ dec_digits 2 (dt_minute dt) @ '':'' @ dec_digits 2 (dt_second dt)"

subsection \<open>\<open>_localtime_string\<close>\<close>

text \<open>
  The function itself, for a host with the given UTC offset. \<open>/\<close> is true division of
  two integers, which gives the double nearest to the quotient. It is the function that
  \<open>parse_time\<close> above takes as its parameter.
\<close>

definition localtime_string :: "(int \<Rightarrow> int) \<Rightarrow> int \<Rightarrow> error + string" where
  "localtime_string utcoffset windows_timestamp =
     (let epoch_ts = to_double (of_int (windows_timestamp - 116444736000000000) / 10000000)
      in bind_err (if 0 < windows_timestamp then fromtimestamp utcoffset epoch_ts
                   else epoch_plus_seconds (trunc epoch_ts))
           (\<lambda>dt. let hms = strftime dt;
                      fraction = windows_timestamp mod 10000000
                  in Inr (hms @ ''.'' @ dec_digits 7 fraction @ ''00 (EDT)'')))"

text \<open>The host that the docstring assumes: four hours west of UTC at every instant.\<close>

definition edt :: "int \<Rightarrow> int" where
  "edt sec = - 14400"

subsection \<open>The pair of the specification\<close>

text \<open>
  The whole seconds and the fraction as the specification computes them from a tick
  count, and the string that shows such a pair on a host with the given UTC offset, in
  the format of \<open>_localtime_string\<close>.
\<close>

definition spec_seconds :: "int \<Rightarrow> int" where
  "spec_seconds ticks = (ticks - 116444736000000000) div 10000000"

definition spec_fraction :: "int \<Rightarrow> int" where
  "spec_fraction ticks = ticks mod 10000000"

definition render_pair :: "(int \<Rightarrow> int) \<Rightarrow> int \<Rightarrow> int \<Rightarrow> error + string" where
  "render_pair utcoffset seconds fraction =
     bind_err (local_datetime utcoffset seconds 0)
       (\<lambda>dt. Inr (strftime dt @ ''.'' @ dec_digits 7 fraction @ ''00 (EDT)''))"

section \<open>Example buffers and predicates on entries\<close>

text \<open>
  The 64-byte header of a non-resident \<open>$DATA\<close> attribute record: type code \<open>0x80\<close>,
  record length \<open>0x48\<close>, non-resident flag 1 at offset 8, run-list offset \<open>0x40\<close> at
  offset 32, and the sizes 196608 at offsets 40, 48 and 56. A run list and padding,
  eight bytes together, follow it in the examples below.
\<close>

definition data_attr_example :: bytes where
  "data_attr_example =
     [0x80, 0, 0, 0, 0x48, 0, 0, 0, 1, 0, 0x40, 0, 0, 0, 0, 0,
      0, 0, 0, 0, 0, 0, 0, 0, 0x2F, 0, 0, 0, 0, 0, 0, 0,
      0x40, 0, 0, 0, 0, 0, 0, 0, 0, 0, 0x03, 0, 0, 0, 0, 0,
      0, 0, 0x03, 0, 0, 0, 0, 0, 0, 0, 0x03, 0, 0, 0, 0, 0]"

text \<open>
  A 1024-byte entry with the \<open>FILE\<close> signature whose flags field at offset 22 is
  \<open>0x0002\<close>: the directory bit is set and bit 0, the in-use bit, is clear.
\<close>

definition deleted_directory_entry :: bytes where
  "deleted_directory_entry = (FILE_signature @ replicate 18 0) @ [0x02, 0x00] @ replicate 1000 0"

text \<open>
  A state of the walker's loop from which it cannot move: the record held does not have
  the type code looked for, and the length field at the cursor is 0.
\<close>

definition stuck :: "int \<Rightarrow> bytes \<Rightarrow> bytes \<Rightarrow> int \<Rightarrow> bool" where
  "stuck attr_id entry attr_full_entry prev_attr_end \<longleftrightarrow>
     unpack (py_slice attr_full_entry 0 4) False \<noteq> attr_id \<and> attr_id \<noteq> 0
       \<and> unpack (py_slice entry (prev_attr_end + 4) (prev_attr_end + 8)) False = 0"

text \<open>
  A valid 1024-byte entry, as the fixup corrector expects it: it carries the \<open>FILE\<close>
  signature, and its fixup array, the update-sequence number followed by one 2-byte pair
  for each of the two 512-byte sectors, lies inside the entry (an entry count of at least
  3 at bytes 6-7, and six bytes available from the array offset at bytes 4-5).
\<close>

definition valid_entry :: "bytes \<Rightarrow> bool" where
  "valid_entry entry \<longleftrightarrow>
     length entry = 1024 \<and> py_slice entry 0 4 = FILE_signature
       \<and> 3 \<le> unpack (py_slice entry 6 8) False
       \<and> unpack (py_slice entry 4 6) False + 6 \<le> 1024"

text \<open>
  An entry of that kind: fixup array at offset \<open>0x30\<close> with three entries, the
  update-sequence number \<open>05 00\<close> at the end of both sectors, and the saved pairs
  \<open>AA BB\<close> and \<open>CC DD\<close>.
\<close>

definition fixup_entry_example :: bytes where
  "fixup_entry_example =
     (FILE_signature @ [0x30, 0x00, 0x03, 0x00])
       @ (replicate 40 0 @ [0x05, 0x00, 0xAA, 0xBB, 0xCC, 0xDD] @ replicate 456 0
            @ [0x05, 0x00] @ replicate 510 0 @ [0x05, 0x00])"

text \<open>
  A resident \<open>$STANDARD_INFORMATION\<close> record that carries a 4-character name
  (\<open>ABCD\<close> in UTF-16LE at record offset \<open>0x18\<close>), so that its content starts at
  offset \<open>0x20\<close>, the value stored at header bytes 20-21, and not at 24. The content
  holds the tick counts 1, 2, 3, 4 and the flags \<open>0x20\<close>. The entry places the record at
  offset \<open>0x38\<close>, after a 56-byte header with the \<open>FILE\<close> signature, and ends with the
  \<open>0xFFFFFFFF\<close> marker.
\<close>

definition named_std_info_attr :: bytes where
  "named_std_info_attr =
     [0x10, 0, 0, 0, 0x48, 0, 0, 0, 0, 4, 0x18, 0, 0, 0, 0, 0,
      0x24, 0, 0, 0, 0x20, 0, 0, 0, 0x41, 0, 0x42, 0, 0x43, 0, 0x44, 0,
      1, 0, 0, 0, 0, 0, 0, 0, 2, 0, 0, 0, 0, 0, 0, 0,
      3, 0, 0, 0, 0, 0, 0, 0, 4, 0, 0, 0, 0, 0, 0, 0,
      0x20, 0, 0, 0, 0, 0, 0, 0]"

definition named_std_info_entry :: bytes where
  "named_std_info_entry =
     (FILE_signature @ replicate 52 0) @ named_std_info_attr @ [0xFF, 0xFF, 0xFF, 0xFF]"

section \<open>Facts about the helpers\<close>

subsection \<open>Binary digits, the two nibbles of a byte, and one pass of the run loop\<close>

lemma length_bin_digits: "length (bin_digits n x) = n"
  by (induction n arbitrary: x) auto

lemma int_base2_snoc:
  "int_base2 (s @ [c]) = 2 * int_base2 s + (if c = CHR ''1'' then 1 else 0)"
  by (simp add: int_base2_def)

lemma int_base2_bin_digits: "int_base2 (bin_digits n x) = int (x mod 2 ^ n)"
proof (induction n arbitrary: x)
  case 0
  show ?case by (simp add: int_base2_def)
next
  case (Suc n)
  have "x mod (2 * 2 ^ n) = 2 * ((x div 2) mod 2 ^ n) + x mod 2"
    by (fact mod_mult2_eq)
  then show ?case
    using Suc.IH [of "x div 2"] by (auto simp: int_base2_snoc odd_iff_mod_2_eq_one)
qed

lemma bin_digits_add:
  "bin_digits (m + n) x = bin_digits m (x div 2 ^ n) @ bin_digits n x"
proof (induction n arbitrary: x)
  case 0
  show ?case by simp
next
  case (Suc n)
  have "x div 2 div 2 ^ n = x div (2 * 2 ^ n)"
    by (rule div_mult2_eq [symmetric])
  then show ?case
    using Suc.IH [of "x div 2"] by simp
qed

lemma slice_nat:
  "py_slice xs (int a) (int b) = take (min b (length xs) - min a (length xs)) (drop (min a (length xs)) xs)"
  by (simp add: py_slice_def clamp_index_def Let_def)


lemma bin_digits_8_split: "bin_digits 8 x = bin_digits 4 (x div 16) @ bin_digits 4 x"
  using bin_digits_add [of 4 4 x] by simp

lemma first_nibble:
  assumes "x < 256"
  shows "int_base2 (py_slice (format_08b (int x)) 0 4) = int (x div 16)"
proof -
  have "py_slice (bin_digits 8 x) (int 0) (int 4) = bin_digits 4 (x div 16)"
    unfolding slice_nat bin_digits_8_split by (simp add: length_bin_digits)
  moreover have "(x div 16) mod 2 ^ 4 = x div 16"
    using assms by simp
  ultimately show ?thesis
    by (simp add: format_08b_def int_base2_bin_digits)
qed

lemma second_nibble: "int_base2 (py_slice (format_08b (int x)) 4 8) = int (x mod 16)"
proof -
  have "py_slice (bin_digits 8 x) (int 4) (int 8) = bin_digits 4 x"
    unfolding slice_nat bin_digits_8_split by (simp add: length_bin_digits)
  then show ?thesis
    by (simp add: format_08b_def int_base2_bin_digits)
qed

lemma slice_empty_range: "py_slice xs a a = []"
  by (simp add: py_slice_def Let_def)

lemma slice_one:
  assumes "py_index xs i = Inr x" and "0 \<le> i"
  shows "py_slice xs i (i + 1) = [x]"
proof -
  from assms have lt: "nat i < length xs" and x: "x = xs ! nat i"
    by (auto simp: py_index_def split: if_splits)
  have "py_slice xs i (i + 1) = take (min (nat (i + 1)) (length xs) - nat i) (drop (nat i) xs)"
    using assms(2) lt by (simp add: py_slice_def clamp_index_def Let_def)
  also have "min (nat (i + 1)) (length xs) - nat i = 1"
    using assms(2) lt by (simp add: nat_add_distrib)
  also have "take 1 (drop (nat i) xs) = [xs ! nat i]"
    using lt by (simp add: take_Suc_conv_app_nth hd_drop_conv_nth take_Suc)
  finally show ?thesis using x by simp
qed

lemma unpack_single: "unpack [b] False = uint b"
  by (simp add: unpack_def)

lemma run_loop_stop:
  "py_index attribute ro = Inr 0 \<Longrightarrow> run_loop attribute ro prev acc = Inr acc"
  by (subst run_loop.simps) simp

lemma run_loop_raise:
  "py_index attribute ro = Inl e \<Longrightarrow> run_loop attribute ro prev acc = Inl e"
  by (subst run_loop.simps) simp

lemma run_loop_step:
  assumes ix: "py_index attribute ro = Inr b" and nz: "b \<noteq> 0" and ro: "0 \<le> ro"
    and small: "unpack (py_slice attribute (ro + 1) (ro + uint b mod 16 + 1)) True < 2 ^ 63"
  shows "run_loop attribute ro prev acc =
           run_loop attribute (ro + uint b mod 16 + 1 + uint b div 16)
             (prev + unpack (py_slice attribute (ro + uint b mod 16 + 1)
                                             (ro + uint b mod 16 + 1 + uint b div 16)) True)
             (acc @ [prev + unpack (py_slice attribute (ro + uint b mod 16 + 1)
                                             (ro + uint b mod 16 + 1 + uint b div 16)) True
                     .. prev + unpack (py_slice attribute (ro + uint b mod 16 + 1)
                                             (ro + uint b mod 16 + 1 + uint b div 16)) True
                        + unpack (py_slice attribute (ro + 1) (ro + uint b mod 16 + 1)) True - 1])"
proof -
  have hdr: "unpack (py_slice attribute ro (ro + 1)) False = uint b"
    using slice_one [OF ix ro] by (simp add: unpack_single)
  have lt: "unat b < 256"
    using unsigned_less [of b] by simp
  have n1: "int_base2 (py_slice (format_08b (uint b)) 0 4) = uint b div 16"
    using first_nibble [OF lt] by (simp add: zdiv_int)
  have n2: "int_base2 (py_slice (format_08b (uint b)) 4 8) = uint b mod 16"
    using second_nibble [of "unat b"] by (simp add: zmod_int)
  show ?thesis
    using small by (subst run_loop.simps) (simp add: ix nz hdr n1 n2 Let_def)
qed

lemma run_loop_overflow:
  assumes ix: "py_index attribute ro = Inr b" and nz: "b \<noteq> 0" and ro: "0 \<le> ro"
    and big: "2 ^ 63 \<le> unpack (py_slice attribute (ro + 1) (ro + uint b mod 16 + 1)) True"
  shows "run_loop attribute ro prev acc = Inl OverflowError"
proof -
  have hdr: "unpack (py_slice attribute ro (ro + 1)) False = uint b"
    using slice_one [OF ix ro] by (simp add: unpack_single)
  have n2: "int_base2 (py_slice (format_08b (uint b)) 4 8) = uint b mod 16"
    using second_nibble [of "unat b"] by (simp add: zmod_int)
  show ?thesis
    using big by (subst run_loop.simps) (simp add: ix nz hdr n2 Let_def)
qed

lemma py_slice_mid:
  assumes "0 \<le> a" "a \<le> b" "b \<le> int (length ys)"
  shows "py_slice (pre @ ys @ post) (int (length pre) + a) (int (length pre) + b) = py_slice ys a b"
proof -
  obtain m n where a: "a = int m" and b: "b = int n"
    using assms by (metis nonneg_int_cases order_trans)
  with assms have mn: "m \<le> n" "n \<le> length ys" by simp_all
  have "py_slice (pre @ ys @ post) (int (length pre + m)) (int (length pre + n))
          = take (n - m) (drop m ys)"
    unfolding slice_nat using mn by (simp add: min_def)
  moreover have "py_slice ys (int m) (int n) = take (n - m) (drop m ys)"
    unfolding slice_nat using mn by (simp add: min_def)
  ultimately show ?thesis by (simp add: a b)
qed

lemma py_index_nat:
  "py_index xs (int n) = (if n < length xs then Inr (xs ! n) else Inl IndexError)"
  by (simp add: py_index_def)

lemma py_index_mid:
  assumes "0 \<le> k" "k < int (length ys)"
  shows "py_index (pre @ ys @ post) (int (length pre) + k) = Inr (ys ! nat k)"
proof -
  obtain m where k: "k = int m"
    using assms by (metis nonneg_int_cases)
  with assms have m: "m < length ys" by simp
  have "py_index (pre @ ys @ post) (int (length pre + m)) = Inr (ys ! m)"
    unfolding py_index_nat using m by (simp add: nth_append)
  then show ?thesis by (simp add: k)
qed

lemma run_loop_step_eq:
  assumes "py_index attribute ro = Inr b" and "b \<noteq> 0" and "0 \<le> ro"
    and "lo = ro + 1" and "bo = ro + uint b mod 16 + 1" and "ro' = bo + uint b div 16"
    and "unpack (py_slice attribute lo bo) True = len"
    and "unpack (py_slice attribute bo ro') True = cl"
    and "len < 2 ^ 63"
  shows "run_loop attribute ro prev acc =
           run_loop attribute ro' (prev + cl) (acc @ [prev + cl .. prev + cl + len - 1])"
proof -
  have "unpack (py_slice attribute (ro + 1) (ro + uint b mod 16 + 1)) True < 2 ^ 63"
    using assms(4,5,7,9) by simp
  from run_loop_step [OF assms(1-3) this, of prev acc] assms(4-8) show ?thesis
    by simp
qed

lemma run_list_single:
  "run_loop (pre @ [0x11, 0x30, 0x10, 0x00] @ post) (int (length pre)) prev acc
     = Inr (acc @ [prev + 16 .. prev + 63])"
proof -
  let ?ys = "[0x11, 0x30, 0x10, 0x00] :: bytes"
  let ?A = "pre @ ?ys @ post"
  let ?L = "int (length pre)"
  have ix0: "py_index ?A ?L = Inr 0x11"
    using py_index_mid [of 0 ?ys pre post] by simp
  have ix3: "py_index ?A (?L + 3) = Inr 0"
    using py_index_mid [of 3 ?ys pre post] by simp
  have len: "unpack (py_slice ?A (?L + 1) (?L + 2)) True = 48"
    using py_slice_mid [of 1 2 ?ys pre post] by (simp add: py_slice_def clamp_index_def unpack_def)
  have off: "unpack (py_slice ?A (?L + 2) (?L + 3)) True = 16"
    using py_slice_mid [of 2 3 ?ys pre post] by (simp add: py_slice_def clamp_index_def unpack_def)
  have "run_loop ?A ?L prev acc
          = run_loop ?A (?L + 3) (prev + 16) (acc @ [prev + 16 .. prev + 16 + 48 - 1])"
    by (rule run_loop_step_eq [OF ix0 _ _ _ _ _ len off]) simp_all
  also have "\<dots> = Inr (acc @ [prev + 16 .. prev + 16 + 48 - 1])"
    by (rule run_loop_stop [OF ix3])
  finally show ?thesis by (simp add: add.commute)
qed

lemma unpack_zeros4: "unpack (py_slice [0, 0, 0, 0] 0 4) False = 0"
  by (simp add: py_slice_def clamp_index_def unpack_def)

lemma get_attr_by_id_first:
  assumes "attr_id \<noteq> 0"
    and "len = unpack (py_slice entry (start + 4) (start + 8)) False"
    and "unpack (py_slice (py_slice entry start (start + len)) 0 4) False = attr_id"
  shows "get_attr_by_id attr_id entry start = Some (py_slice entry start (start + len), start + len)"
proof -
  have "get_attr_by_id attr_id entry start
          = get_attr_loop attr_id entry (py_slice entry start (start + len)) (start + len) (start + len)"
    unfolding get_attr_by_id_def Let_def
    by (subst get_attr_loop.simps) (simp add: unpack_zeros4 assms(1) assms(2) [symmetric] Let_def)
  also have "\<dots> = Some (py_slice entry start (start + len), start + len)"
    by (subst get_attr_loop.simps) (simp add: assms(3))
  finally show ?thesis .
qed

subsection \<open>The list built so far is a prefix of the result\<close>

lemma run_loop_acc_all:
  fixes sl :: "int list"
  shows "\<forall>acc. run_loop attribute ro prev acc =
           (case run_loop attribute ro prev [] of Inl e \<Rightarrow> Inl e | Inr r \<Rightarrow> Inr (acc @ r))"
proof (induction attribute ro prev sl rule: run_loop.induct)
  case (1 attribute ro prev sl)
  show ?case
  proof
    fix acc
    show "run_loop attribute ro prev acc =
           (case run_loop attribute ro prev [] of Inl e \<Rightarrow> Inl e | Inr r \<Rightarrow> Inr (acc @ r))"
    proof (cases "py_index attribute ro")
      case (Inl e)
      then show ?thesis by (simp add: run_loop_raise)
    next
      case (Inr b)
      show ?thesis
      proof (cases "b = 0")
        case True
        with Inr show ?thesis by (simp add: run_loop_stop)
      next
        case False
        note IH = 1 [OF Inr False refl refl refl refl refl refl refl refl refl]
        show ?thesis
          apply (subst run_loop.simps)
          apply (subst (2) run_loop.simps)
          using IH Inr False
          apply (simp add: Let_def split: sum.splits)
          done
      qed
    qed
  qed
qed


lemma run_loop_acc:
  "run_loop attribute ro prev acc =
     (case run_loop attribute ro prev [] of Inl e \<Rightarrow> Inl e | Inr r \<Rightarrow> Inr (acc @ r))"
  using run_loop_acc_all [of attribute ro prev] by blast

subsection \<open>Run lists in context and the example attribute\<close>

lemma unpack_empty: "unpack [] s = 0"
  by (simp add: unpack_def)

lemma run_list_two:
  "run_loop (pre @ [0x11, 0x30, 0x10, 0x11, 0x02, 0xFB, 0x00] @ post) (int (length pre)) prev acc
     = Inr (acc @ [prev + 16 .. prev + 63] @ [prev + 11 .. prev + 12])"
proof -
  let ?ys = "[0x11, 0x30, 0x10, 0x11, 0x02, 0xFB, 0x00] :: bytes"
  let ?A = "pre @ ?ys @ post"
  let ?L = "int (length pre)"
  have ix0: "py_index ?A ?L = Inr 0x11"
    using py_index_mid [of 0 ?ys pre post] by simp
  have ix3: "py_index ?A (?L + 3) = Inr 0x11"
    using py_index_mid [of 3 ?ys pre post] by simp
  have ix6: "py_index ?A (?L + 6) = Inr 0"
    using py_index_mid [of 6 ?ys pre post] by simp
  have ys: "py_slice ?ys 1 2 = [0x30]" "py_slice ?ys 2 3 = [0x10]"
    "py_slice ?ys 4 5 = [0x02]" "py_slice ?ys 5 6 = [0xFB]"
    by (simp_all add: py_slice_def clamp_index_def)
  have len1: "unpack (py_slice ?A (?L + 1) (?L + 2)) True = 48"
    using py_slice_mid [of 1 2 ?ys pre post] ys by (simp add: unpack_def)
  have off1: "unpack (py_slice ?A (?L + 2) (?L + 3)) True = 16"
    using py_slice_mid [of 2 3 ?ys pre post] ys by (simp add: unpack_def)
  have len2: "unpack (py_slice ?A (?L + 4) (?L + 5)) True = 2"
    using py_slice_mid [of 4 5 ?ys pre post] ys by (simp add: unpack_def)
  have off2: "unpack (py_slice ?A (?L + 5) (?L + 6)) True = - 5"
    using py_slice_mid [of 5 6 ?ys pre post] ys by (simp add: unpack_def)
  have "run_loop ?A ?L prev acc
          = run_loop ?A (?L + 3) (prev + 16) (acc @ [prev + 16 .. prev + 16 + 48 - 1])"
    by (rule run_loop_step_eq [OF ix0 _ _ _ _ _ len1 off1]) simp_all
  also have "\<dots> = run_loop ?A (?L + 6) (prev + 16 + - 5)
                      ((acc @ [prev + 16 .. prev + 16 + 48 - 1])
                        @ [prev + 16 + - 5 .. prev + 16 + - 5 + 2 - 1])"
    by (rule run_loop_step_eq [OF ix3 _ _ _ _ _ len2 off2]) simp_all
  also have "\<dots> = Inr ((acc @ [prev + 16 .. prev + 16 + 48 - 1])
                        @ [prev + 16 + - 5 .. prev + 16 + - 5 + 2 - 1])"
    by (rule run_loop_stop [OF ix6])
  finally show ?thesis by (simp add: add.commute)
qed

lemma run_list_sparse:
  "run_loop (pre @ [0x11, 0x03, 0x10, 0x01, 0x02, 0x00] @ post) (int (length pre)) prev acc
     = Inr (acc @ [prev + 16 .. prev + 18] @ [prev + 16 .. prev + 17])"
proof -
  let ?ys = "[0x11, 0x03, 0x10, 0x01, 0x02, 0x00] :: bytes"
  let ?A = "pre @ ?ys @ post"
  let ?L = "int (length pre)"
  have ix0: "py_index ?A ?L = Inr 0x11"
    using py_index_mid [of 0 ?ys pre post] by simp
  have ix3: "py_index ?A (?L + 3) = Inr 0x01"
    using py_index_mid [of 3 ?ys pre post] by simp
  have ix5: "py_index ?A (?L + 5) = Inr 0"
    using py_index_mid [of 5 ?ys pre post] by simp
  have ys: "py_slice ?ys 1 2 = [0x03]" "py_slice ?ys 2 3 = [0x10]" "py_slice ?ys 4 5 = [0x02]"
    by (simp_all add: py_slice_def clamp_index_def)
  have len1: "unpack (py_slice ?A (?L + 1) (?L + 2)) True = 3"
    using py_slice_mid [of 1 2 ?ys pre post] ys by (simp add: unpack_def)
  have off1: "unpack (py_slice ?A (?L + 2) (?L + 3)) True = 16"
    using py_slice_mid [of 2 3 ?ys pre post] ys by (simp add: unpack_def)
  have len2: "unpack (py_slice ?A (?L + 4) (?L + 5)) True = 2"
    using py_slice_mid [of 4 5 ?ys pre post] ys by (simp add: unpack_def)
  have off2: "unpack (py_slice ?A (?L + 5) (?L + 5)) True = 0"
    by (simp add: slice_empty_range unpack_empty)
  have "run_loop ?A ?L prev acc
          = run_loop ?A (?L + 3) (prev + 16) (acc @ [prev + 16 .. prev + 16 + 3 - 1])"
    by (rule run_loop_step_eq [OF ix0 _ _ _ _ _ len1 off1]) simp_all
  also have "\<dots> = run_loop ?A (?L + 5) (prev + 16 + 0)
                      ((acc @ [prev + 16 .. prev + 16 + 3 - 1])
                        @ [prev + 16 + 0 .. prev + 16 + 0 + 2 - 1])"
    by (rule run_loop_step_eq [OF ix3 _ _ _ _ _ len2 off2]) simp_all
  also have "\<dots> = Inr ((acc @ [prev + 16 .. prev + 16 + 3 - 1])
                        @ [prev + 16 + 0 .. prev + 16 + 0 + 2 - 1])"
    by (rule run_loop_stop [OF ix5])
  finally show ?thesis by (simp add: add.commute)
qed

lemma run_list_high_length:
  "run_loop (pre @ [0x11, 0x80, 0x10, 0x00] @ post) (int (length pre)) prev acc = Inr acc"
proof -
  let ?ys = "[0x11, 0x80, 0x10, 0x00] :: bytes"
  let ?A = "pre @ ?ys @ post"
  let ?L = "int (length pre)"
  have ix0: "py_index ?A ?L = Inr 0x11"
    using py_index_mid [of 0 ?ys pre post] by simp
  have ix3: "py_index ?A (?L + 3) = Inr 0"
    using py_index_mid [of 3 ?ys pre post] by simp
  have ys: "py_slice ?ys 1 2 = [0x80]" "py_slice ?ys 2 3 = [0x10]"
    by (simp_all add: py_slice_def clamp_index_def)
  have len1: "unpack (py_slice ?A (?L + 1) (?L + 2)) True = - 128"
    using py_slice_mid [of 1 2 ?ys pre post] ys by (simp add: unpack_def)
  have off1: "unpack (py_slice ?A (?L + 2) (?L + 3)) True = 16"
    using py_slice_mid [of 2 3 ?ys pre post] ys by (simp add: unpack_def)
  have "run_loop ?A ?L prev acc
          = run_loop ?A (?L + 3) (prev + 16) (acc @ [prev + 16 .. prev + 16 + - 128 - 1])"
    by (rule run_loop_step_eq [OF ix0 _ _ _ _ _ len1 off1]) simp_all
  also have "\<dots> = Inr (acc @ [prev + 16 .. prev + 16 + - 128 - 1])"
    by (rule run_loop_stop [OF ix3])
  finally show ?thesis by simp
qed

lemma py_slice_prefix:
  assumes "0 \<le> a" "a \<le> b" "b \<le> int (length ys)"
  shows "py_slice (ys @ post) a b = py_slice ys a b"
  using py_slice_mid [OF assms, of "[]" post] by simp

lemma py_index_prefix:
  assumes "0 \<le> k" "k < int (length ys)"
  shows "py_index (ys @ post) k = Inr (ys ! nat k)"
  using py_index_mid [OF assms, of "[]" post] by simp

lemma data_attr_example_fields:
  "length data_attr_example = 64"
  "unpack (py_slice data_attr_example 0 4) False = 128"
  "unpack (py_slice data_attr_example 4 8) False = 72"
  "data_attr_example ! 8 = 1"
  "unpack (py_slice data_attr_example 32 34) False = 64"
  "unpack (py_slice data_attr_example 48 56) False = 196608"
  "unpack (py_slice data_attr_example 56 63) False = 196608"
  by (simp_all add: data_attr_example_def py_slice_def clamp_index_def unpack_def)

lemma data_example_walker:
  assumes "length rl \<le> 8"
  shows "get_attr_by_id 0x80 (data_attr_example @ rl) 0 = Some (data_attr_example @ rl, 72)"
proof -
  let ?E = "data_attr_example @ rl"
  have len: "unpack (py_slice ?E (0 + 4) (0 + 8)) False = 72"
    using py_slice_prefix [of 4 8 data_attr_example rl]
    by (simp add: data_attr_example_fields)
  have all: "py_slice ?E 0 (0 + 72) = ?E"
    using assms by (simp add: py_slice_def clamp_index_def data_attr_example_fields)
  have ty: "unpack (py_slice ?E 0 4) False = 128"
    using py_slice_prefix [of 0 4 data_attr_example rl]
    by (simp add: data_attr_example_fields)
  show ?thesis
    using get_attr_by_id_first [of 128 72 ?E 0] len all ty by simp
qed

lemma parse_data_attr_non_resident:
  assumes "get_attr_by_id 0x80 entry prev_attr_end = Some (attribute, next_offset)"
    and "py_index attribute 8 = Inr non_res_flag" and "non_res_flag \<noteq> 0"
    and "run_loop attribute (unpack (py_slice attribute 32 34) False) 0 [] = Inr sectors"
  shows "parse_data_attr entry prev_attr_end =
           Some (Inr \<lparr>data_type = 0x80,
                      data_size = unpack (py_slice attribute 48 56) False,
                      init_size = Some (unpack (py_slice attribute 56 63) False),
                      sector_list = Some sectors\<rparr>)"
  using assms by (simp add: parse_data_attr_def bind_err_def Let_def)

lemma data_example_parse:
  assumes "length rl \<le> 8"
    and "run_loop (data_attr_example @ rl) (int (length data_attr_example)) 0 [] = Inr sectors"
  shows "parse_data_attr (data_attr_example @ rl) 0 =
           Some (Inr \<lparr>data_type = 0x80, data_size = 196608, init_size = Some 196608,
                      sector_list = Some sectors\<rparr>)"
proof -
  let ?E = "data_attr_example @ rl"
  have flag: "py_index ?E 8 = Inr 1"
    using py_index_prefix [of 8 data_attr_example rl] by (simp add: data_attr_example_fields)
  have ro: "unpack (py_slice ?E 32 34) False = int (length data_attr_example)"
    using py_slice_prefix [of 32 34 data_attr_example rl] by (simp add: data_attr_example_fields)
  have sz: "unpack (py_slice ?E 48 56) False = 196608"
    using py_slice_prefix [of 48 56 data_attr_example rl] by (simp add: data_attr_example_fields)
  have isz: "unpack (py_slice ?E 56 63) False = 196608"
    using py_slice_prefix [of 56 63 data_attr_example rl] by (simp add: data_attr_example_fields)
  show ?thesis
    using parse_data_attr_non_resident [OF data_example_walker [OF assms(1)] flag _ assms(2) [folded ro]]
    by (simp add: sz isz)
qed

subsection \<open>The walker on a zero length field\<close>

lemma slice_Nil: "py_slice [] a b = []"
  by (simp add: py_slice_def)

lemma stuck_step:
  assumes "stuck attr_id entry afe p"
  shows "stuck attr_id entry (py_slice entry p p) p"
  using assms by (simp add: stuck_def slice_empty_range slice_Nil unpack_empty)

lemma get_attr_loop_stuck_aux:
  assumes "get_attr_loop attr_id entry afe p c = Some r"
  shows "\<not> stuck attr_id entry afe p"
proof (rule get_attr_loop.raw_induct
         [where P = "\<lambda>attr_id entry afe p c r. \<not> stuck attr_id entry afe p", OF _ assms])
  fix loop :: "int \<Rightarrow> bytes \<Rightarrow> bytes \<Rightarrow> int \<Rightarrow> int \<Rightarrow> (bytes \<times> int) option"
    and attr_id entry afe p c r
  assume IH: "\<And>attr_id entry afe p c r. loop attr_id entry afe p c = Some r
                \<Longrightarrow> \<not> stuck attr_id entry afe p"
    and body: "(if unpack (py_slice afe 0 4) False \<noteq> attr_id
      then let attr_start = p;
               length = unpack (py_slice entry (attr_start + 4) (attr_start + 8)) False;
               curr_attr_end = attr_start + length;
               attr_full_entry = py_slice entry attr_start curr_attr_end;
               prev_attr_end = curr_attr_end
           in loop attr_id entry attr_full_entry prev_attr_end curr_attr_end
      else Some (afe, c)) = Some r"
  show "\<not> stuck attr_id entry afe p"
  proof
    assume s: "stuck attr_id entry afe p"
    then have "loop attr_id entry (py_slice entry p p) p p = Some r"
      using body by (simp add: stuck_def Let_def)
    from IH [OF this] stuck_step [OF s] show False by simp
  qed
qed

lemma get_attr_by_id_zero_length:
  assumes "attr_id \<noteq> 0"
    and "unpack (py_slice entry (prev_attr_end + 4) (prev_attr_end + 8)) False = 0"
  shows "get_attr_by_id attr_id entry prev_attr_end = None"
proof (cases "get_attr_by_id attr_id entry prev_attr_end")
  case None
  then show ?thesis .
next
  case (Some r)
  then have "get_attr_loop attr_id entry [0, 0, 0, 0] prev_attr_end prev_attr_end = Some r"
    by (simp add: get_attr_by_id_def)
  from get_attr_loop_stuck_aux [OF this] assms show ?thesis
    by (simp add: stuck_def unpack_zeros4)
qed


lemma from_bytes_le_zeros: "from_bytes_le (replicate n 0) = 0"
  by (induction n) simp_all

lemma unpack_zeros: "unpack (replicate n 0) s = 0"
  by (simp add: unpack_def from_bytes_le_zeros)

lemma py_slice_replicate:
  "py_slice (replicate n x) (int a) (int b) = replicate (min b n - min a n) x"
  by (simp add: slice_nat)

subsection \<open>The layout of the corrected buffer\<close>

lemma from_bytes_le_nonneg: "0 \<le> from_bytes_le bs"
  by (induction bs) simp_all

lemma unpack_unsigned_nonneg: "0 \<le> unpack bs False"
  by (simp add: unpack_def from_bytes_le_nonneg)

lemma fixup_layout:
  assumes "length xs = 510" and "length ys = 510"
  shows "length (xs @ [a, b] @ ys @ [c, d]) = 1024"
    and "(xs @ [a, b] @ ys @ [c, d]) ! 510 = a"
    and "(xs @ [a, b] @ ys @ [c, d]) ! 511 = b"
    and "(xs @ [a, b] @ ys @ [c, d]) ! 1022 = c"
    and "(xs @ [a, b] @ ys @ [c, d]) ! 1023 = d"
    and "i < 510 \<Longrightarrow> (xs @ [a, b] @ ys @ [c, d]) ! i = xs ! i"
    and "512 \<le> i \<Longrightarrow> i < 1022 \<Longrightarrow> (xs @ [a, b] @ ys @ [c, d]) ! i = ys ! (i - 512)"
  using assms by (auto simp: nth_append nth_Cons')

lemma take2_drop:
  assumes "k + 2 \<le> length xs" and "k' = k + 1"
  shows "take 2 (drop k xs) = [xs ! k, xs ! k']"
proof -
  have "take (Suc (Suc 0)) (drop k xs) = [xs ! k, xs ! Suc k]"
    using assms by (simp add: take_Suc_conv_app_nth)
  then show ?thesis by (simp add: numeral_2_eq_2 assms(2))
qed

lemma fixup_entry_example_valid: "valid_entry fixup_entry_example"
proof -
  let ?hdr = "FILE_signature @ [0x30, 0x00, 0x03, 0x00] :: bytes"
  have hdr: "?hdr = [0x46, 0x49, 0x4C, 0x45, 0x30, 0x00, 0x03, 0x00]"
    by (simp add: FILE_signature_def)
  have sl: "py_slice fixup_entry_example a b = py_slice ?hdr a b"
    if "0 \<le> a" "a \<le> b" "b \<le> 8" for a b
    unfolding fixup_entry_example_def
    by (rule py_slice_prefix) (use that in \<open>simp_all add: FILE_signature_def\<close>)
  have "py_slice fixup_entry_example 0 4 = FILE_signature"
    using sl [of 0 4] by (simp add: hdr FILE_signature_def py_slice_def clamp_index_def)
  moreover have "unpack (py_slice fixup_entry_example 4 6) False = 48"
    using sl [of 4 6] by (simp add: hdr py_slice_def clamp_index_def unpack_def)
  moreover have "unpack (py_slice fixup_entry_example 6 8) False = 3"
    using sl [of 6 8] by (simp add: hdr py_slice_def clamp_index_def unpack_def)
  moreover have "length fixup_entry_example = 1024"
    by (simp add: fixup_entry_example_def FILE_signature_def)
  ultimately show ?thesis
    by (simp add: valid_entry_def)
qed

subsection \<open>The named standard-information record\<close>

lemma named_std_info_attr_fields:
  "length named_std_info_attr = 72"
  "unpack (py_slice named_std_info_attr 0 4) False = 16"
  "unpack (py_slice named_std_info_attr 4 8) False = 72"
  "unpack (py_slice named_std_info_attr 16 20) False = 36"
  "unpack (py_slice named_std_info_attr 20 22) False = 32"
  "unpack (py_slice named_std_info_attr 24 32) False = 19140586183458881"
  "unpack (py_slice named_std_info_attr 32 40) False = 1"
  "unpack (py_slice named_std_info_attr 40 48) False = 2"
  "unpack (py_slice named_std_info_attr 48 56) False = 3"
  "unpack (py_slice named_std_info_attr 56 64) False = 4"
  "unpack (py_slice (py_slice named_std_info_attr 32 129) 32 36) False = 32"
  "py_slice named_std_info_attr 0 72 = named_std_info_attr"
  by (simp_all add: named_std_info_attr_def py_slice_def clamp_index_def unpack_def)

lemma named_std_info_walker:
  "get_attr_by_id 0x10 named_std_info_entry 0x38 = Some (named_std_info_attr, 128)"
proof -
  let ?pre = "FILE_signature @ replicate 52 0 :: bytes"
  have pre: "int (length ?pre) = 56"
    by (simp add: FILE_signature_def)
  have sl: "py_slice named_std_info_entry (56 + a) (56 + b) = py_slice named_std_info_attr a b"
    if "0 \<le> a" "a \<le> b" "b \<le> 72" for a b
    unfolding named_std_info_entry_def pre [symmetric]
    by (rule py_slice_mid) (use that in \<open>simp_all add: named_std_info_attr_fields\<close>)
  have len: "unpack (py_slice named_std_info_entry (56 + 4) (56 + 8)) False = 72"
    using sl [of 4 8] by (simp add: named_std_info_attr_fields)
  have rec: "py_slice named_std_info_entry 56 (56 + 72) = named_std_info_attr"
    using sl [of 0 72] by (simp add: named_std_info_attr_fields)
  have ty: "unpack (py_slice named_std_info_attr 0 4) False = 16"
    by (simp add: named_std_info_attr_fields)
  show ?thesis
    using get_attr_by_id_first [of 16 72 named_std_info_entry 56] len rec ty by simp
qed

subsection \<open>Rounding to the nearest double\<close>

lemma round_half_even_cases: "round_half_even r = \<lfloor>r\<rfloor> \<or> round_half_even r = \<lfloor>r\<rfloor> + 1"
  by (simp add: round_half_even_def Let_def)

lemma round_half_even_of_int: "round_half_even (of_int n) = n"
  by (simp add: round_half_even_def Let_def)

lemma round_half_even_le:
  assumes "r \<le> of_int n"
  shows "round_half_even r \<le> n"
proof (cases "r = of_int n")
  case True
  then show ?thesis by (simp add: round_half_even_of_int)
next
  case False
  with assms have "r < of_int n" by simp
  then have "\<lfloor>r\<rfloor> < n" by (simp add: floor_less_iff)
  with round_half_even_cases [of r] show ?thesis by auto
qed

lemma round_half_even_ge:
  assumes "of_int n \<le> r"
  shows "n \<le> round_half_even r"
proof -
  from assms have "n \<le> \<lfloor>r\<rfloor>" by (simp add: le_floor_iff)
  with round_half_even_cases [of r] show ?thesis by auto
qed

lemma bitlen_pos:
  assumes "0 < n"
  shows "1 \<le> bitlen n"
proof (rule ccontr)
  assume "\<not> 1 \<le> bitlen n"
  then have "nat (bitlen n) = 0" by simp
  with bitlen_bounds [OF assms] show False by auto
qed

lemma binade_lower:
  assumes "q \<noteq> 0"
  shows "2 powi (binade q) \<le> \<bar>q\<bar>"
proof (cases "1 \<le> \<bar>q\<bar>")
  case True
  define n where "n = \<lfloor>\<bar>q\<bar>\<rfloor>"
  from True have n: "0 < n" by (simp add: n_def)
  from bitlen_bounds [OF n] have "(2 :: int) ^ nat (bitlen n - 1) \<le> n" by simp
  then have "(of_int (2 ^ nat (bitlen n - 1)) :: rat) \<le> of_int n" by (simp only: of_int_le_iff)
  also have "(of_int n :: rat) \<le> \<bar>q\<bar>" by (simp add: n_def)
  finally have "(2 :: rat) ^ nat (bitlen n - 1) \<le> \<bar>q\<bar>" by simp
  moreover from bitlen_pos [OF n] have "0 \<le> bitlen n - 1" by simp
  ultimately show ?thesis using True by (simp add: binade_def n_def power_int_def)
next
  case False
  define c where "c = \<lceil>1 / \<bar>q\<bar>\<rceil> - 1"
  from assms False have small: "0 < \<bar>q\<bar>" "\<bar>q\<bar> < 1" by simp_all
  then have "1 < 1 / \<bar>q\<bar>" by simp
  then have "1 < \<lceil>1 / \<bar>q\<bar>\<rceil>" by (simp add: less_ceiling_iff)
  then have c: "0 < c" by (simp add: c_def)
  from bitlen_bounds [OF c] have "c + 1 \<le> 2 ^ nat (bitlen c)" by simp
  then have "(of_int (c + 1) :: rat) \<le> of_int (2 ^ nat (bitlen c))" by (simp only: of_int_le_iff)
  moreover have "1 / \<bar>q\<bar> \<le> of_int (c + 1)" by (simp add: c_def)
  ultimately have "1 / \<bar>q\<bar> \<le> 2 ^ nat (bitlen c)" by simp
  with small have "1 / 2 ^ nat (bitlen c) \<le> \<bar>q\<bar>"
    by (simp add: field_simps)
  moreover from bitlen_pos [OF c] have "\<not> 0 \<le> - bitlen c" by simp
  ultimately show ?thesis using False
    by (simp add: binade_def c_def power_int_def field_simps)
qed

lemma binade_less:
  assumes "q \<noteq> 0" and "\<bar>q\<bar> < 2 powi m"
  shows "binade q < m"
proof (rule ccontr)
  assume "\<not> binade q < m"
  then have "(2 :: rat) powi m \<le> 2 powi (binade q)"
    by (intro power_int_increasing) simp_all
  with binade_lower [OF assms(1)] assms(2) show False by simp
qed

lemma binade_upper:
  assumes "q \<noteq> 0"
  shows "\<bar>q\<bar> < 2 powi (binade q + 1)"
proof (cases "1 \<le> \<bar>q\<bar>")
  case True
  define n where "n = \<lfloor>\<bar>q\<bar>\<rfloor>"
  from True have n: "0 < n" by (simp add: n_def)
  from bitlen_bounds [OF n] have "n + 1 \<le> 2 ^ nat (bitlen n)" by simp
  then have "(of_int (n + 1) :: rat) \<le> of_int (2 ^ nat (bitlen n))" by (simp only: of_int_le_iff)
  moreover have "\<bar>q\<bar> < of_int (n + 1)" unfolding n_def by linarith
  ultimately have "\<bar>q\<bar> < 2 ^ nat (bitlen n)" by simp
  moreover from bitlen_pos [OF n] have "0 \<le> bitlen n" by simp
  ultimately show ?thesis using True by (simp add: binade_def n_def power_int_def)
next
  case False
  define c where "c = \<lceil>1 / \<bar>q\<bar>\<rceil> - 1"
  from assms False have small: "0 < \<bar>q\<bar>" "\<bar>q\<bar> < 1" by simp_all
  then have "1 < 1 / \<bar>q\<bar>" by simp
  then have "1 < \<lceil>1 / \<bar>q\<bar>\<rceil>" by (simp add: less_ceiling_iff)
  then have c: "0 < c" by (simp add: c_def)
  from bitlen_bounds [OF c] have "(2 :: int) ^ nat (bitlen c - 1) \<le> c" by simp
  then have "(of_int (2 ^ nat (bitlen c - 1)) :: rat) \<le> of_int c" by (simp only: of_int_le_iff)
  then have "(2 :: rat) ^ nat (bitlen c - 1) \<le> of_int c" by simp
  also have "of_int c < 1 / \<bar>q\<bar>" unfolding c_def by linarith
  finally have "2 ^ nat (bitlen c - 1) < 1 / \<bar>q\<bar>" .
  with small have lt: "\<bar>q\<bar> < 1 / 2 ^ nat (bitlen c - 1)"
    by (simp add: field_simps)
  show ?thesis
  proof (cases "bitlen c = 1")
    case True
    with lt False show ?thesis by (simp add: binade_def c_def)
  next
    case neq: False
    with bitlen_pos [OF c] have "\<not> 0 \<le> 1 - bitlen c" and "nat (bitlen c - 1) = nat (- (1 - bitlen c))"
      by simp_all
    with lt False show ?thesis
      by (simp add: binade_def c_def power_int_def field_simps)
  qed
qed

text \<open>
  A number below \<open>2 ^ m\<close> in magnitude is rounded on a grid at least as fine as
  \<open>2 ^ (m - 53)\<close>, so rounding does not cross a multiple of \<open>2 ^ (m - 53)\<close>.
\<close>

lemma grid_refines:
  assumes "q \<noteq> 0" and "\<bar>q\<bar> < 2 powi m"
  shows "\<exists>j. (2 :: rat) powi (m - 53) = 2 ^ j * 2 powi (binade q - 52)"
proof -
  define j where "j = nat (m - 53 - (binade q - 52))"
  from binade_less [OF assms] have e: "m - 53 = (binade q - 52) + int j"
    by (simp add: j_def)
  have "(2 :: rat) powi (m - 53) = 2 powi (binade q - 52) * 2 powi (int j)"
    unfolding e by (rule power_int_add) simp
  then have "(2 :: rat) powi (m - 53) = 2 ^ j * 2 powi (binade q - 52)"
    by (simp add: mult.commute)
  then show ?thesis ..
qed

lemma to_double_le:
  assumes "\<bar>q\<bar> < 2 powi m" and "q \<le> of_int n * 2 powi (m - 53)"
  shows "to_double q \<le> of_int n * 2 powi (m - 53)"
proof (cases "q = 0")
  case True
  with assms(2) show ?thesis by (simp add: to_double_def)
next
  case False
  define ulp :: rat where "ulp = 2 powi (binade q - 52)"
  from grid_refines [OF False assms(1)] obtain j where grid: "(2 :: rat) powi (m - 53) = 2 ^ j * ulp"
    unfolding ulp_def by blast
  have ulp: "0 < ulp" by (simp add: ulp_def)
  from assms(2) have "q \<le> of_int (n * 2 ^ j) * ulp" by (simp add: grid)
  with ulp have "q / ulp \<le> of_int (n * 2 ^ j)" by (simp add: pos_divide_le_eq)
  then have "round_half_even (q / ulp) \<le> n * 2 ^ j" by (rule round_half_even_le)
  then have "(of_int (round_half_even (q / ulp)) :: rat) \<le> of_int (n * 2 ^ j)"
    by (simp only: of_int_le_iff)
  with ulp have "of_int (round_half_even (q / ulp)) * ulp \<le> of_int (n * 2 ^ j) * ulp"
    by (intro mult_right_mono) simp_all
  with False show ?thesis by (simp add: to_double_def Let_def ulp_def [symmetric] grid)
qed

lemma to_double_ge:
  assumes "\<bar>q\<bar> < 2 powi m" and "of_int n * 2 powi (m - 53) \<le> q"
  shows "of_int n * 2 powi (m - 53) \<le> to_double q"
proof (cases "q = 0")
  case True
  with assms(2) show ?thesis by (simp add: to_double_def)
next
  case False
  define ulp :: rat where "ulp = 2 powi (binade q - 52)"
  from grid_refines [OF False assms(1)] obtain j where grid: "(2 :: rat) powi (m - 53) = 2 ^ j * ulp"
    unfolding ulp_def by blast
  have ulp: "0 < ulp" by (simp add: ulp_def)
  from assms(2) have "of_int (n * 2 ^ j) * ulp \<le> q" by (simp add: grid)
  with ulp have "of_int (n * 2 ^ j) \<le> q / ulp" by (simp add: pos_le_divide_eq)
  then have "n * 2 ^ j \<le> round_half_even (q / ulp)" by (rule round_half_even_ge)
  then have "(of_int (n * 2 ^ j) :: rat) \<le> of_int (round_half_even (q / ulp))"
    by (simp only: of_int_le_iff)
  with ulp have "of_int (n * 2 ^ j) * ulp \<le> of_int (round_half_even (q / ulp)) * ulp"
    by (intro mult_right_mono) simp_all
  with False show ?thesis by (simp add: to_double_def Let_def ulp_def [symmetric] grid)
qed

subsection \<open>\<open>fromtimestamp\<close> on a float close above a whole second\<close>

lemma microseconds_of_fraction:
  assumes "0 \<le> f" and "f \<le> 4095 / 4096"
  shows "0 \<le> round_half_even (to_double (f * 1000000))
         \<and> round_half_even (to_double (f * 1000000)) < 1000000"
proof -
  from assms have mag: "\<bar>f * 1000000\<bar> < 2 powi 20" by simp
  from assms have "of_int 0 * 2 powi (20 - 53) \<le> f * 1000000" by simp
  from to_double_ge [OF mag this] have "of_int 0 \<le> to_double (f * 1000000)" by simp
  then have lower: "0 \<le> round_half_even (to_double (f * 1000000))"
    by (rule round_half_even_ge)
  from assms have "f * 1000000 \<le> of_int 8587838586880000 * 2 powi (20 - 53)" by simp
  from to_double_le [OF mag this] have "to_double (f * 1000000) \<le> of_int 999756" by simp
  then have "round_half_even (to_double (f * 1000000)) \<le> 999756"
    by (rule round_half_even_le)
  with lower show ?thesis by simp
qed

lemma microseconds_of_negative_fraction:
  assumes "- 1 < f" and "f \<le> - (1 / 4096)"
  shows "- 1000000 \<le> round_half_even (to_double (f * 1000000))
         \<and> round_half_even (to_double (f * 1000000)) < 0"
proof -
  from assms have mag: "\<bar>f * 1000000\<bar> < 2 powi 20" by simp
  from assms have "of_int (- 8589934592000000) * 2 powi (20 - 53) \<le> f * 1000000" by simp
  from to_double_ge [OF mag this] have "of_int (- 1000000) \<le> to_double (f * 1000000)" by simp
  then have lower: "- 1000000 \<le> round_half_even (to_double (f * 1000000))"
    by (rule round_half_even_ge)
  from assms have "f * 1000000 \<le> of_int (- 2097152000000) * 2 powi (20 - 53)" by simp
  from to_double_le [OF mag this] have "to_double (f * 1000000) \<le> of_int (- 244)" by simp
  then have "round_half_even (to_double (f * 1000000)) \<le> - 244"
    by (rule round_half_even_le)
  with lower show ?thesis by simp
qed

lemma fromtimestamp_floor:
  assumes "of_int s \<le> t" and "t \<le> of_int s + 4095 / 4096"
  shows "\<exists>us. fromtimestamp utcoffset t = local_datetime utcoffset s us"
proof (cases "t = of_int s")
  case True
  then have "fromtimestamp utcoffset t = local_datetime utcoffset s 0"
    by (simp add: fromtimestamp_def trunc_def to_double_def round_half_even_def Let_def)
  then show ?thesis ..
next
  case False
  with assms have above: "of_int s < t" by simp
  show ?thesis
  proof (cases "0 \<le> t")
    case True
    from assms have "\<lfloor>t\<rfloor> = s" by (intro floor_unique) simp_all
    with True have tr: "trunc t = s" by (simp add: trunc_def)
    define us where "us = round_half_even (to_double ((t - of_int s) * 1000000))"
    from assms have "0 \<le> t - of_int s" and "t - of_int s \<le> 4095 / 4096" by simp_all
    from microseconds_of_fraction [OF this] have "0 \<le> us" and "us < 1000000"
      by (simp_all add: us_def)
    moreover have "fromtimestamp utcoffset t =
        (if 1000000 \<le> us then local_datetime utcoffset (s + 1) (us - 1000000)
         else if us < 0 then local_datetime utcoffset (s - 1) (us + 1000000)
         else local_datetime utcoffset s us)"
      by (simp only: fromtimestamp_def tr Let_def us_def)
    ultimately have "fromtimestamp utcoffset t = local_datetime utcoffset s us"
      by simp
    then show ?thesis ..
  next
    case False
    from above assms have "\<lceil>t\<rceil> = s + 1" by (intro ceiling_unique) simp_all
    with False have tr: "trunc t = s + 1" by (simp add: trunc_def)
    define us where "us = round_half_even (to_double ((t - of_int (s + 1)) * 1000000))"
    from above assms have "- 1 < t - of_int (s + 1)" and "t - of_int (s + 1) \<le> - (1 / 4096)"
      by simp_all
    from microseconds_of_negative_fraction [OF this] have "- 1000000 \<le> us" and "us < 0"
      by (simp_all add: us_def)
    moreover have "fromtimestamp utcoffset t =
        (if 1000000 \<le> us then local_datetime utcoffset (s + 1 + 1) (us - 1000000)
         else if us < 0 then local_datetime utcoffset (s + 1 - 1) (us + 1000000)
         else local_datetime utcoffset (s + 1) us)"
      by (simp only: fromtimestamp_def tr Let_def us_def)
    ultimately have "fromtimestamp utcoffset t = local_datetime utcoffset s (us + 1000000)"
      by simp
    then show ?thesis ..
  qed
qed

text \<open>The microsecond is not printed.\<close>

lemma strftime_ignores_microsecond:
  "bind_err (local_datetime utcoffset s us) (\<lambda>dt. Inr (strftime dt @ z))
     = bind_err (local_datetime utcoffset s 0) (\<lambda>dt. Inr (strftime dt @ z))"
  by (simp add: local_datetime_def Let_def bind_err_def strftime_def)

subsection \<open>The true division of \<open>_localtime_string\<close>\<close>

lemma epoch_ts_bounds:
  assumes "0 < ts" and "ts < 2 ^ 64" and "ts mod 10000000 \<le> 9997558"
  shows "of_int (spec_seconds ts) \<le> to_double (of_int (ts - 116444736000000000) / 10000000)
         \<and> to_double (of_int (ts - 116444736000000000) / 10000000)
             \<le> of_int (spec_seconds ts) + 4095 / 4096"
proof -
  define s where "s = spec_seconds ts"
  define k where "k = ts mod 10000000"
  define x :: rat where "x = of_int (ts - 116444736000000000) / 10000000"
  have "(ts + (- 11644473600) * 10000000) mod 10000000 = ts mod 10000000"
    by (rule mod_mult_self1)
  then have k: "(ts - 116444736000000000) mod 10000000 = k" by (simp add: k_def)
  have "ts - 116444736000000000 = s * 10000000 + k"
    unfolding s_def spec_seconds_def k [symmetric] by simp
  then have "x = of_int (s * 10000000 + k) / 10000000" by (simp add: x_def)
  then have x: "x = of_int s + of_int k / 10000000" by (simp add: field_simps)
  have k0: "0 \<le> k" and k1: "k \<le> 9997558" using assms(3) by (simp_all add: k_def)
  then have kq: "(0 :: rat) \<le> of_int k" "(of_int k :: rat) \<le> 9997558" by simp_all
  from assms have "- 21990232555520000000 < ts - 116444736000000000"
    and "ts - 116444736000000000 < 21990232555520000000" by simp_all
  then have "- (21990232555520000000 :: rat) < of_int (ts - 116444736000000000)"
    and "(of_int (ts - 116444736000000000) :: rat) < 21990232555520000000"
    by (simp_all only: of_int_less_iff [symmetric, where ?'a = rat] of_int_numeral of_int_minus)
  then have mag: "\<bar>x\<bar> < 2 powi 41" by (simp add: x_def abs_less_iff field_simps)
  from kq have "of_int (s * 4096) * 2 powi (41 - 53) \<le> x" by (simp add: x)
  from to_double_ge [OF mag this] have lower: "of_int s \<le> to_double x" by simp
  from kq have "x \<le> of_int (s * 4096 + 4095) * 2 powi (41 - 53)" by (simp add: x field_simps)
  from to_double_le [OF mag this] have "to_double x \<le> of_int s + 4095 / 4096"
    by (simp add: field_simps)
  with lower show ?thesis by (simp add: s_def x_def)
qed

subsection \<open>The string that \<open>_localtime_string\<close> returns\<close>

lemma from_bytes_le_less: "from_bytes_le bs < 2 ^ (8 * length bs)"
proof (induction bs)
  case Nil
  show ?case by simp
next
  case (Cons b bs)
  have "uint b < 256" using uint_bounded [of b] by simp
  moreover from Cons have "from_bytes_le bs + 1 \<le> 2 ^ (8 * length bs)" by simp
  then have "256 * (from_bytes_le bs + 1) \<le> 256 * 2 ^ (8 * length bs)" by simp
  ultimately have "uint b + 256 * from_bytes_le bs < 256 * 2 ^ (8 * length bs)" by simp
  then show ?case by (simp add: power_add)
qed

lemma unpack_8_bytes:
  assumes "length data = 8"
  shows "0 \<le> unpack data False" and "unpack data False < 2 ^ 64"
  using from_bytes_le_less [of data] assms by (simp_all add: unpack_def from_bytes_le_nonneg)

lemma length_dec_digits: "length (dec_digits n x) = n"
  by (induction n arbitrary: x) simp_all

lemma length_strftime: "length (strftime dt) = 19"
  by (simp add: strftime_def length_dec_digits)

lemma localtime_string_suffix:
  assumes "localtime_string utcoffset ticks = Inr s"
  shows "drop 19 s = ''.'' @ dec_digits 7 (ticks mod 10000000) @ ''00 (EDT)''"
proof -
  from assms obtain dt where
    "s = strftime dt @ ''.'' @ dec_digits 7 (ticks mod 10000000) @ ''00 (EDT)''"
    by (auto simp: localtime_string_def bind_err_def Let_def split: sum.splits)
  then show ?thesis using length_strftime [of dt] by simp
qed

lemma localtime_string_floor:
  assumes "0 < ticks" and "ticks < 2 ^ 64" and "ticks mod 10000000 \<le> 9997558"
  shows "localtime_string utcoffset ticks
           = render_pair utcoffset (spec_seconds ticks) (spec_fraction ticks)"
proof -
  from epoch_ts_bounds [OF assms] fromtimestamp_floor obtain us where
    "fromtimestamp utcoffset (to_double (of_int (ticks - 116444736000000000) / 10000000))
       = local_datetime utcoffset (spec_seconds ticks) us"
    by blast
  with assms(1) have "localtime_string utcoffset ticks =
      bind_err (local_datetime utcoffset (spec_seconds ticks) us)
        (\<lambda>dt. Inr (strftime dt @ ''.'' @ dec_digits 7 (ticks mod 10000000) @ ''00 (EDT)''))"
    by (simp only: localtime_string_def Let_def if_True)
  also have "\<dots> = render_pair utcoffset (spec_seconds ticks) (spec_fraction ticks)"
    unfolding render_pair_def spec_fraction_def by (rule strftime_ignores_microsecond)
  finally show ?thesis .
qed

lemma localtime_string_zero:
  "localtime_string utcoffset 0 = Inr ''1601-01-01 00:00:00.000000000 (EDT)''"
  by code_simp

lemma parse_time_localtime_string:
  "parse_time (localtime_string utcoffset) attribute (a, b)
     = localtime_string utcoffset (unpack (py_slice attribute (24 + a) (24 + b)) False)"
  by (simp add: parse_time_def)


text \<open>The calendar conversion on the epoch, the start of the tick count and a leap day.\<close>

lemma civil_from_days_examples:
  "civil_from_days 0 = (1970, 1, 1)
   \<and> civil_from_days (- 134774) = (1601, 1, 1)
   \<and> civil_from_days 11016 = (2000, 2, 29)"
  by code_simp

section \<open>The claims\<close>

text \<open>
  C1. For a non-resident \<open>$DATA\<close> attribute whose run list is the bytes
  \<open>0x11 0x30 0x10 0x00\<close>, the data-run decoder emits exactly the cluster list
  \<open>[16, 17, ..., 63]\<close> and stops at the \<open>0x00\<close> byte: whatever bytes follow the
  terminator (\<open>post\<close>) and wherever in the attribute the run list starts (\<open>pre\<close>),
  \<open>parse_data_attr\<close> returns a dictionary whose \<open>sector_list\<close> is \<open>[16..63]\<close>.
\<close>

theorem C1_single_run_decoded:
  assumes "get_attr_by_id 0x80 entry prev_attr_end = Some (attribute, next_offset)"
    and "attribute = pre @ [0x11, 0x30, 0x10, 0x00] @ post"
    and "py_index attribute 8 = Inr non_res_flag" and "non_res_flag \<noteq> 0"
    and "unpack (py_slice attribute 32 34) False = int (length pre)"
  shows "\<exists>d. parse_data_attr entry prev_attr_end = Some (Inr d)
             \<and> sector_list d = Some [16..63]"
proof -
  have "run_loop attribute (int (length pre)) 0 [] = Inr [16..63]"
    unfolding assms(2) using run_list_single [of pre post 0 "[]"] by simp
  then show ?thesis
    by (simp add: parse_data_attr_def assms(1,3,4,5) bind_err_def Let_def)
qed

theorem C1_single_run_decoded_witness:
  "get_attr_by_id 0x80 (data_attr_example @ [0x11, 0x30, 0x10, 0x00] @ [0, 0, 0, 0]) 0
     = Some (data_attr_example @ [0x11, 0x30, 0x10, 0x00] @ [0, 0, 0, 0], 72)
   \<and> py_index (data_attr_example @ [0x11, 0x30, 0x10, 0x00] @ [0, 0, 0, 0]) 8 = Inr 1
   \<and> (1 :: byte) \<noteq> 0
   \<and> unpack (py_slice (data_attr_example @ [0x11, 0x30, 0x10, 0x00] @ [0, 0, 0, 0]) 32 34) False
        = int (length data_attr_example)
   \<and> (\<exists>d. parse_data_attr (data_attr_example @ [0x11, 0x30, 0x10, 0x00] @ [0, 0, 0, 0]) 0
              = Some (Inr d) \<and> sector_list d = Some [16..63])"
proof -
  let ?rl = "[0x11, 0x30, 0x10, 0x00] @ [0, 0, 0, 0] :: bytes"
  let ?E = "data_attr_example @ ?rl"
  have h1: "get_attr_by_id 0x80 ?E 0 = Some (?E, 72)"
    by (rule data_example_walker) simp
  have h3: "py_index ?E 8 = Inr 1"
    using py_index_prefix [of 8 data_attr_example ?rl] by (simp add: data_attr_example_fields)
  have h4: "(1 :: byte) \<noteq> 0" by simp
  have h5: "unpack (py_slice ?E 32 34) False = int (length data_attr_example)"
    using py_slice_prefix [of 32 34 data_attr_example ?rl] by (simp add: data_attr_example_fields)
  from C1_single_run_decoded [OF h1 refl h3 h4 h5] h1 h3 h4 h5
  show ?thesis by blast
qed

text \<open>
  C2, as stated, fails. With the run \<open>0x11 0x02 0xFB\<close> (length 2, delta \<open>-5\<close>) right after
  \<open>0x11 0x30 0x10\<close>, the second run starts at cluster 11, not 59: entry 48 of the
  cluster list, the first cluster of the second run, is 11. The example entry is the
  example header followed by the run list, its terminator and one byte of padding.
\<close>

theorem C2_counterexample:
  "parse_data_attr (data_attr_example @ [0x11, 0x30, 0x10, 0x11, 0x02, 0xFB, 0x00, 0x00]) 0
     = Some (Inr \<lparr>data_type = 0x80, data_size = 196608, init_size = Some 196608,
                 sector_list = Some ([16..63] @ [11, 12])\<rparr>)
   \<and> ([16..63] @ [11, 12]) ! 48 \<noteq> (59 :: int)"
proof -
  have "run_loop (data_attr_example @ [0x11, 0x30, 0x10, 0x11, 0x02, 0xFB, 0x00, 0x00])
          (int (length data_attr_example)) 0 [] = Inr ([16..63] @ [11, 12])"
    using run_list_two [of data_attr_example "[0x00]" 0 "[]"] by (simp add: upto_rec1)
  then have "parse_data_attr (data_attr_example @ [0x11, 0x30, 0x10, 0x11, 0x02, 0xFB, 0x00, 0x00]) 0
     = Some (Inr \<lparr>data_type = 0x80, data_size = 196608, init_size = Some 196608,
                 sector_list = Some ([16..63] @ [11, 12])\<rparr>)"
    by (intro data_example_parse) simp_all
  moreover have "([16..63] @ [11, 12]) ! 48 = (11 :: int)"
    by (simp add: nth_append)
  ultimately show ?thesis by simp
qed

text \<open>
  C2, amended. For a run list with the run \<open>0x11 0x02 0xFB\<close> right after
  \<open>0x11 0x30 0x10\<close>, the second run starts at cluster \<open>11 = 16 - 5\<close>: the signed delta is
  added to the running value, which is the starting cluster of the previous run (not its
  end), and is not reset per run. The decoded list is \<open>[16..63]\<close> followed by
  \<open>[11, 12]\<close>, wherever the run list lies in the attribute and whatever follows it.
\<close>

theorem C2_second_run_from_previous_start:
  assumes "get_attr_by_id 0x80 entry prev_attr_end = Some (attribute, next_offset)"
    and "attribute = pre @ [0x11, 0x30, 0x10, 0x11, 0x02, 0xFB, 0x00] @ post"
    and "py_index attribute 8 = Inr non_res_flag" and "non_res_flag \<noteq> 0"
    and "unpack (py_slice attribute 32 34) False = int (length pre)"
  shows "\<exists>d. parse_data_attr entry prev_attr_end = Some (Inr d)
             \<and> sector_list d = Some ([16..63] @ [11, 12])"
proof -
  have "run_loop attribute (unpack (py_slice attribute 32 34) False) 0 []
          = Inr ([16..63] @ [11, 12])"
    unfolding assms(5) unfolding assms(2)
    using run_list_two [of pre post 0 "[]"] by (simp add: upto_rec1)
  from parse_data_attr_non_resident [OF assms(1,3,4) this]
  show ?thesis by simp
qed

theorem C2_second_run_from_previous_start_witness:
  "get_attr_by_id 0x80 (data_attr_example @ [0x11, 0x30, 0x10, 0x11, 0x02, 0xFB, 0x00] @ [0x00]) 0
     = Some (data_attr_example @ [0x11, 0x30, 0x10, 0x11, 0x02, 0xFB, 0x00] @ [0x00], 72)
   \<and> py_index (data_attr_example @ [0x11, 0x30, 0x10, 0x11, 0x02, 0xFB, 0x00] @ [0x00]) 8 = Inr 1
   \<and> (1 :: byte) \<noteq> 0
   \<and> unpack (py_slice (data_attr_example @ [0x11, 0x30, 0x10, 0x11, 0x02, 0xFB, 0x00] @ [0x00]) 32 34) False
        = int (length data_attr_example)
   \<and> (\<exists>d. parse_data_attr (data_attr_example @ [0x11, 0x30, 0x10, 0x11, 0x02, 0xFB, 0x00] @ [0x00]) 0
              = Some (Inr d) \<and> sector_list d = Some ([16..63] @ [11, 12]))"
proof -
  let ?rl = "[0x11, 0x30, 0x10, 0x11, 0x02, 0xFB, 0x00] @ [0x00] :: bytes"
  let ?E = "data_attr_example @ ?rl"
  have h1: "get_attr_by_id 0x80 ?E 0 = Some (?E, 72)"
    by (rule data_example_walker) simp
  have h3: "py_index ?E 8 = Inr 1"
    using py_index_prefix [of 8 data_attr_example ?rl] by (simp add: data_attr_example_fields)
  have h4: "(1 :: byte) \<noteq> 0" by simp
  have h5: "unpack (py_slice ?E 32 34) False = int (length data_attr_example)"
    using py_slice_prefix [of 32 34 data_attr_example ?rl] by (simp add: data_attr_example_fields)
  from C2_second_run_from_previous_start [OF h1 refl h3 h4 h5] h1 h3 h4 h5
  show ?thesis by blast
qed

text \<open>
  C3, as stated, fails. On the run list \<open>0x11 0x03 0x10\<close>, \<open>0x01 0x02\<close>, \<open>0x00\<close> the
  second run has an offset-length nibble of 0 and a length of 2. Its two clusters are
  emitted as \<open>16, 17\<close>, the position of the previous run; they are not left out (the
  list is not \<open>[16, 17, 18]\<close>), and a list of integers has no way to mark them.
\<close>

theorem C3_counterexample:
  "parse_data_attr (data_attr_example @ [0x11, 0x03, 0x10, 0x01, 0x02, 0x00, 0x00, 0x00]) 0
     = Some (Inr \<lparr>data_type = 0x80, data_size = 196608, init_size = Some 196608,
                 sector_list = Some [16, 17, 18, 16, 17]\<rparr>)
   \<and> parse_data_attr (data_attr_example @ [0x11, 0x03, 0x10, 0x01, 0x02, 0x00, 0x00, 0x00]) 0
     \<noteq> Some (Inr \<lparr>data_type = 0x80, data_size = 196608, init_size = Some 196608,
                 sector_list = Some [16, 17, 18]\<rparr>)"
proof -
  have "run_loop (data_attr_example @ [0x11, 0x03, 0x10, 0x01, 0x02, 0x00, 0x00, 0x00])
          (int (length data_attr_example)) 0 [] = Inr [16, 17, 18, 16, 17]"
    using run_list_sparse [of data_attr_example "[0x00, 0x00]" 0 "[]"] by (simp add: upto_rec1)
  then have "parse_data_attr (data_attr_example @ [0x11, 0x03, 0x10, 0x01, 0x02, 0x00, 0x00, 0x00]) 0
     = Some (Inr \<lparr>data_type = 0x80, data_size = 196608, init_size = Some 196608,
                 sector_list = Some [16, 17, 18, 16, 17]\<rparr>)"
    by (intro data_example_parse) simp_all
  then show ?thesis by simp
qed

text \<open>
  C3, amended. Take any run whose header byte has an offset-length nibble of 0, and whose
  run-length field has its top bit clear (the signed and the unsigned reading agree on
  \<open>len\<close>) and is below \<open>2 ^ 63\<close>. The decoder reads the absent offset bytes as a delta
  of 0. The list it returns is the list built from the earlier runs, then the clusters
  \<open>prev_first_cluster, ..., prev_first_cluster + len - 1\<close> of this run, where
  \<open>prev_first_cluster\<close> is the running value the previous run left, that run's starting
  cluster, then what the later runs give from the same, unchanged running value; it
  raises exactly when decoding the later runs raises. When the terminator follows the
  run, the result is the earlier list followed by this run's clusters. Nothing is left
  out and nothing is marked.
\<close>

theorem C3_sparse_run_read_as_delta_zero:
  assumes "py_index attribute runlist_offset = Inr first_byte" and "first_byte \<noteq> 0"
    and "uint first_byte div 16 = 0" and "0 \<le> runlist_offset"
    and "unpack (py_slice attribute (runlist_offset + 1)
                                    (runlist_offset + uint first_byte + 1)) False = len"
    and "unpack (py_slice attribute (runlist_offset + 1)
                                    (runlist_offset + uint first_byte + 1)) True = len"
    and "len < 2 ^ 63"
  shows "run_loop attribute runlist_offset prev_first_cluster acc =
           (case run_loop attribute (runlist_offset + uint first_byte + 1) prev_first_cluster [] of
              Inl e \<Rightarrow> Inl e
            | Inr rest \<Rightarrow>
                Inr (acc @ [prev_first_cluster .. prev_first_cluster + len - 1] @ rest))
         \<and> (py_index attribute (runlist_offset + uint first_byte + 1) = Inr 0 \<longrightarrow>
              run_loop attribute runlist_offset prev_first_cluster acc =
                Inr (acc @ [prev_first_cluster .. prev_first_cluster + len - 1]))"
proof -
  let ?next = "runlist_offset + uint first_byte + 1"
  let ?hole = "[prev_first_cluster .. prev_first_cluster + len - 1]"
  have m: "uint first_byte mod 16 = uint first_byte"
    using assms(3) by (metis add.left_neutral mult_zero_right mult_div_mod_eq)
  have small: "unpack (py_slice attribute (runlist_offset + 1)
                 (runlist_offset + uint first_byte mod 16 + 1)) True < 2 ^ 63"
    using assms(6,7) by (simp add: m)
  have step: "run_loop attribute runlist_offset prev_first_cluster acc =
                run_loop attribute ?next prev_first_cluster (acc @ ?hole)"
    using run_loop_step [OF assms(1,2,4) small, of prev_first_cluster acc]
    by (simp add: assms(3,6) m slice_empty_range unpack_empty)
  have general: "run_loop attribute runlist_offset prev_first_cluster acc =
           (case run_loop attribute ?next prev_first_cluster [] of
              Inl e \<Rightarrow> Inl e | Inr rest \<Rightarrow> Inr (acc @ ?hole @ rest))"
    unfolding step by (subst run_loop_acc) (simp split: sum.splits)
  have last: "run_loop attribute runlist_offset prev_first_cluster acc = Inr (acc @ ?hole)"
    if "py_index attribute ?next = Inr 0"
    unfolding step by (rule run_loop_stop [OF that])
  from general last show ?thesis by blast
qed

theorem C3_sparse_run_read_as_delta_zero_witness:
  "py_index [0x11, 0x03, 0x10, 0x01, 0x02, 0x00 :: byte] 3 = Inr 1
   \<and> (1 :: byte) \<noteq> 0 \<and> uint (1 :: byte) div 16 = 0 \<and> (0 :: int) \<le> 3
   \<and> unpack (py_slice [0x11, 0x03, 0x10, 0x01, 0x02, 0x00] (3 + 1) (3 + uint (1 :: byte) + 1)) False = 2
   \<and> unpack (py_slice [0x11, 0x03, 0x10, 0x01, 0x02, 0x00] (3 + 1) (3 + uint (1 :: byte) + 1)) True = 2
   \<and> (2 :: int) < 2 ^ 63
   \<and> py_index [0x11, 0x03, 0x10, 0x01, 0x02, 0x00 :: byte] (3 + uint (1 :: byte) + 1) = Inr 0
   \<and> run_loop [0x11, 0x03, 0x10, 0x01, 0x02, 0x00] 3 16 [16, 17, 18] = Inr [16, 17, 18, 16, 17]"
proof -
  let ?A = "[0x11, 0x03, 0x10, 0x01, 0x02, 0x00] :: bytes"
  have h1: "py_index ?A 3 = Inr 1" by (simp add: py_index_def)
  have h2: "(1 :: byte) \<noteq> 0" by simp
  have h3: "uint (1 :: byte) div 16 = 0" by simp
  have h4: "(0 :: int) \<le> 3" by simp
  have h5: "unpack (py_slice ?A (3 + 1) (3 + uint (1 :: byte) + 1)) False = 2"
    by (simp add: py_slice_def clamp_index_def unpack_def)
  have h6: "unpack (py_slice ?A (3 + 1) (3 + uint (1 :: byte) + 1)) True = 2"
    by (simp add: py_slice_def clamp_index_def unpack_def)
  have h7: "(2 :: int) < 2 ^ 63" by simp
  have stop: "py_index ?A (3 + uint (1 :: byte) + 1) = Inr 0" by (simp add: py_index_def)
  from C3_sparse_run_read_as_delta_zero [OF h1 h2 h3 h4 h5 h6 h7, of 16 "[16, 17, 18]"] stop
  have "run_loop ?A 3 16 [16, 17, 18] = Inr ([16, 17, 18] @ [16 .. 16 + 2 - 1])"
    by blast
  then have "run_loop ?A 3 16 [16, 17, 18] = Inr [16, 17, 18, 16, 17]"
    by (simp add: upto_rec1)
  with h1 h2 h3 h4 h5 h6 h7 stop show ?thesis by blast
qed

text \<open>
  C4 against the code. On the run list \<open>0x11 0x80 0x10 0x00\<close> the one-byte run-length
  field \<open>0x80\<close> is read with \<open>signed=True\<close> as \<open>-128\<close>, so the run contributes no
  cluster and the list is empty; read unsigned, as the claim has it, the field is 128.
\<close>

theorem C4_run_length_read_signed:
  "parse_data_attr (data_attr_example @ [0x11, 0x80, 0x10, 0x00, 0x00, 0x00, 0x00, 0x00]) 0
     = Some (Inr \<lparr>data_type = 0x80, data_size = 196608, init_size = Some 196608,
                 sector_list = Some []\<rparr>)
   \<and> unpack [0x80] True = - 128 \<and> unpack [0x80] False = 128"
proof -
  have "run_loop (data_attr_example @ [0x11, 0x80, 0x10, 0x00, 0x00, 0x00, 0x00, 0x00])
          (int (length data_attr_example)) 0 [] = Inr []"
    using run_list_high_length [of data_attr_example "[0x00, 0x00, 0x00, 0x00]" 0 "[]"] by simp
  then have "parse_data_attr (data_attr_example @ [0x11, 0x80, 0x10, 0x00, 0x00, 0x00, 0x00, 0x00]) 0
     = Some (Inr \<lparr>data_type = 0x80, data_size = 196608, init_size = Some 196608,
                 sector_list = Some []\<rparr>)"
    by (intro data_example_parse) simp_all
  then show ?thesis by (simp add: unpack_def)
qed

text \<open>
  C5, as stated, fails. On an all-zero 1024-byte buffer, searched for type \<open>0x10\<close> from
  offset \<open>0x38\<close>, the walker does not return: the length field at the cursor is 0, the
  cursor never moves, and no exception is raised.
\<close>

theorem C5_counterexample:
  "get_attr_by_id 0x10 (replicate 1024 0) 0x38 = None"
proof -
  have "py_slice (replicate 1024 (0 :: byte)) (int 60) (int 64) = replicate 4 0"
    unfolding py_slice_replicate by simp
  then have "unpack (py_slice (replicate 1024 0) (0x38 + 4) (0x38 + 8)) False = 0"
    by (simp add: unpack_zeros)
  then show ?thesis
    by (intro get_attr_by_id_zero_length) simp_all
qed

text \<open>
  C5, amended. The walker advances by the candidate's declared 4-byte length, read
  unsigned, and checks neither that it is positive nor that the cursor stays inside the
  entry; it raises nothing. For every entry buffer and every search start, when the
  length field of the candidate at the search start is 0 and the type code looked for is
  not 0, the walker never returns.
\<close>

theorem C5_zero_length_never_returns:
  assumes "attr_id \<noteq> 0"
    and "unpack (py_slice entry (search_start + 4) (search_start + 8)) False = 0"
  shows "get_attr_by_id attr_id entry search_start = None"
  using assms by (rule get_attr_by_id_zero_length)

theorem C5_zero_length_never_returns_witness:
  "(0x30 :: int) \<noteq> 0
   \<and> unpack (py_slice (FILE_signature @ replicate 1020 0) (0x38 + 4) (0x38 + 8)) False = 0
   \<and> get_attr_by_id 0x30 (FILE_signature @ replicate 1020 0) 0x38 = None"
proof -
  have h1: "(0x30 :: int) \<noteq> 0" by simp
  have "py_slice (FILE_signature @ replicate 1020 0) (int (length FILE_signature) + 56)
          (int (length FILE_signature) + 60) = py_slice (replicate 1020 0) (int 56) (int 60)"
    using py_slice_mid [of 56 60 "replicate 1020 0" FILE_signature "[]"] by simp
  then have h2: "unpack (py_slice (FILE_signature @ replicate 1020 0) (0x38 + 4) (0x38 + 8)) False = 0"
    unfolding py_slice_replicate by (simp add: FILE_signature_def unpack_zeros)
  from C5_zero_length_never_returns [OF h1 h2] h1 h2 show ?thesis by blast
qed

text \<open>
  C6. For every valid 1024-byte entry the fixup corrector returns a buffer of 1024 bytes
  in which bytes 510-511 and 1022-1023 are the two pairs that follow the update-sequence
  number in the fixup array of the entry (array offset \<open>+ 2 .. + 5\<close>), and every other
  byte is the byte of the entry at the same position. The result is a new value: a
  \<open>bytes\<close> object is immutable in Python, as a list is here, so the argument is not
  changed.
\<close>

theorem C6_fixup_replaces_sector_ends:
  assumes "valid_entry entry"
  shows "\<exists>fixed. apply_fixup entry = Inr fixed \<and> length fixed = 1024
           \<and> fixed ! 510 = entry ! (nat (unpack (py_slice entry 4 6) False) + 2)
           \<and> fixed ! 511 = entry ! (nat (unpack (py_slice entry 4 6) False) + 3)
           \<and> fixed ! 1022 = entry ! (nat (unpack (py_slice entry 4 6) False) + 4)
           \<and> fixed ! 1023 = entry ! (nat (unpack (py_slice entry 4 6) False) + 5)
           \<and> (\<forall>i < 1024. i \<notin> {510, 511, 1022, 1023} \<longrightarrow> fixed ! i = entry ! i)"
proof -
  define fixup where "fixup = unpack (py_slice entry 4 6) False"
  define num where "num = unpack (py_slice entry 6 8) False"
  define k where "k = nat fixup"
  define fixuprepl where "fixuprepl = py_slice entry (fixup + 2) (fixup + 2 * num)"
  from assms have len: "length entry = 1024" and sig: "py_slice entry 0 4 = FILE_signature"
    and num3: "3 \<le> num" and inb: "fixup + 6 \<le> 1024"
    by (simp_all add: valid_entry_def fixup_def num_def)
  have fix0: "0 \<le> fixup"
    unfolding fixup_def by (rule unpack_unsigned_nonneg)
  then have fk: "fixup = int k" and k6: "k + 6 \<le> 1024"
    using inb by (simp_all add: k_def)
  obtain n where n: "num = int n" and n3: "3 \<le> n"
    using num3 by (metis nonneg_int_cases of_nat_le_iff of_nat_numeral order_trans zero_le_numeral)
  have "fixuprepl = py_slice entry (int (k + 2)) (int (k + 2 * n))"
    by (simp add: fixuprepl_def fk n add.commute)
  also have "\<dots> = take (min (k + 2 * n) 1024 - (k + 2)) (drop (k + 2) entry)"
    unfolding slice_nat using k6 len by (simp add: min_def)
  finally have repl0: "fixuprepl = take (min (k + 2 * n) 1024 - (k + 2)) (drop (k + 2) entry)" .
  define m where "m = min (k + 2 * n) 1024 - (k + 2)"
  have m4: "4 \<le> m"
    unfolding m_def using n3 k6 by (auto simp: min_def)
  have repl: "fixuprepl = take m (drop (k + 2) entry)"
    using repl0 by (simp add: m_def)
  have lrepl: "4 \<le> length fixuprepl"
    using repl len k6 m4 by simp
  have "py_slice fixuprepl (int 0) (int 2) = take 2 fixuprepl"
    unfolding slice_nat using lrepl by (simp add: min_def)
  also have "\<dots> = take 2 (drop (k + 2) entry)"
    unfolding repl take_take using m4 by (simp add: min_def)
  also have "\<dots> = [entry ! (k + 2), entry ! (k + 3)]"
    by (rule take2_drop) (use len k6 in simp_all)
  finally have first: "py_slice fixuprepl 0 2 = [entry ! (k + 2), entry ! (k + 3)]"
    by simp
  have dd: "drop 2 (drop (k + 2) entry) = drop (k + 4) entry"
    unfolding drop_drop by (rule arg_cong [where f = "\<lambda>j. drop j entry"]) simp
  have "py_slice fixuprepl (int 2) (int 4) = take 2 (drop 2 fixuprepl)"
    unfolding slice_nat using lrepl by (simp add: min_def)
  also have "\<dots> = take 2 (take (m - 2) (drop 2 (drop (k + 2) entry)))"
    unfolding repl drop_take ..
  also have "\<dots> = take 2 (drop (k + 4) entry)"
    unfolding take_take dd using m4 by (simp add: min_def)
  also have "\<dots> = [entry ! (k + 4), entry ! (k + 5)]"
    by (rule take2_drop) (use len k6 in simp_all)
  finally have second: "py_slice fixuprepl 2 4 = [entry ! (k + 4), entry ! (k + 5)]"
    by simp
  have front: "py_slice entry (int 0) (int 510) = take 510 entry"
    unfolding slice_nat using len by simp
  have middle: "py_slice entry (int 512) (int 1022) = take 510 (drop 512 entry)"
    unfolding slice_nat using len by simp
  define fixed where
    "fixed = take 510 entry @ [entry ! (k + 2), entry ! (k + 3)]
               @ take 510 (drop 512 entry) @ [entry ! (k + 4), entry ! (k + 5)]"
  have res: "apply_fixup entry = Inr fixed"
    using sig first second front middle
    by (simp add: apply_fixup_def Let_def fixed_def fixup_def [symmetric] num_def [symmetric]
        fixuprepl_def [symmetric])
  have lx: "length (take 510 entry) = 510" and ly: "length (take 510 (drop 512 entry)) = 510"
    using len by simp_all
  note lay = fixup_layout [OF lx ly, where a = "entry ! (k + 2)" and b = "entry ! (k + 3)"
      and c = "entry ! (k + 4)" and d = "entry ! (k + 5)", folded fixed_def]
  have rest: "fixed ! i = entry ! i" if "i < 1024" "i \<notin> {510, 511, 1022, 1023}" for i
  proof (cases "i < 510")
    case True
    then show ?thesis using lay(6) [of i] by simp
  next
    case False
    with that have "512 \<le> i" "i < 1022" by auto
    then show ?thesis using lay(7) [of i] len by simp
  qed
  show ?thesis
    using res lay(1-5) rest unfolding k_def fixup_def by blast
qed


theorem C6_fixup_replaces_sector_ends_witness:
  "valid_entry fixup_entry_example
   \<and> (\<exists>fixed. apply_fixup fixup_entry_example = Inr fixed \<and> length fixed = 1024
           \<and> fixed ! 510 = fixup_entry_example ! (nat (unpack (py_slice fixup_entry_example 4 6) False) + 2)
           \<and> fixed ! 511 = fixup_entry_example ! (nat (unpack (py_slice fixup_entry_example 4 6) False) + 3)
           \<and> fixed ! 1022 = fixup_entry_example ! (nat (unpack (py_slice fixup_entry_example 4 6) False) + 4)
           \<and> fixed ! 1023 = fixup_entry_example ! (nat (unpack (py_slice fixup_entry_example 4 6) False) + 5)
           \<and> fixed ! 0 = fixup_entry_example ! 0
           \<and> fixed ! 1021 = fixup_entry_example ! 1021)"
proof -
  from C6_fixup_replaces_sector_ends [OF fixup_entry_example_valid]
  obtain fixed where f: "apply_fixup fixup_entry_example = Inr fixed" "length fixed = 1024"
    "fixed ! 510 = fixup_entry_example ! (nat (unpack (py_slice fixup_entry_example 4 6) False) + 2)"
    "fixed ! 511 = fixup_entry_example ! (nat (unpack (py_slice fixup_entry_example 4 6) False) + 3)"
    "fixed ! 1022 = fixup_entry_example ! (nat (unpack (py_slice fixup_entry_example 4 6) False) + 4)"
    "fixed ! 1023 = fixup_entry_example ! (nat (unpack (py_slice fixup_entry_example 4 6) False) + 5)"
    and rest: "\<forall>i < 1024. i \<notin> {510, 511, 1022, 1023} \<longrightarrow> fixed ! i = fixup_entry_example ! i"
    by blast
  from rest have "fixed ! 0 = fixup_entry_example ! 0" "fixed ! 1021 = fixup_entry_example ! 1021"
    by simp_all
  with f fixup_entry_example_valid show ?thesis by blast
qed

text \<open>
  C7. The fixup corrector fails on every buffer whose first four bytes are not the ASCII
  signature \<open>FILE\<close>, the all-zero buffer among them, and returns a buffer exactly when
  they are. The failure is the \<open>AssertionError\<close> of the function's \<open>assert\<close>, which is
  what the specification calls \<open>BadSignatureError\<close>.
\<close>

theorem C7_signature_checked:
  "(py_slice entry 0 4 \<noteq> FILE_signature \<longrightarrow> apply_fixup entry = Inl AssertionError)
   \<and> (py_slice entry 0 4 = FILE_signature \<longrightarrow> (\<exists>fixed. apply_fixup entry = Inr fixed))"
  by (simp add: apply_fixup_def Let_def)

theorem C7_signature_checked_witness:
  "py_slice (replicate 1024 0) 0 4 \<noteq> FILE_signature
   \<and> apply_fixup (replicate 1024 0) = Inl AssertionError"
proof -
  have "py_slice (replicate 1024 (0 :: byte)) (int 0) (int 4) = replicate 4 0"
    unfolding py_slice_replicate by simp
  then have "py_slice (replicate 1024 (0 :: byte)) 0 4 ! 0 = 0"
    by simp
  moreover have "FILE_signature ! 0 = 0x46"
    by (simp add: FILE_signature_def)
  ultimately have h: "py_slice (replicate 1024 0) 0 4 \<noteq> FILE_signature"
    by auto
  with C7_signature_checked [of "replicate 1024 0"] show ?thesis by blast
qed

text \<open>
  C8, as stated, fails. The tick count \<open>2 ^ 64 - 1\<close>, eight bytes \<open>0xFF\<close>, lies in the
  year 60056: \<open>fromtimestamp\<close> raises \<open>ValueError\<close> and no pair is produced. The tick count
  116444736009999999 is 0.9999999 s after the Unix epoch: its whole seconds are 0 and its
  fraction is 9999999, which the EDT host would show as \<open>1969-12-31 20:00:00.999999900\<close>,
  but the decoder shows second \<open>01\<close>. The quotient is a float, and \<open>fromtimestamp\<close> rounds it
  to the microsecond, here up to the next second.
\<close>

theorem C8_counterexample:
  "unpack [0xFF, 0xFF, 0xFF, 0xFF, 0xFF, 0xFF, 0xFF, 0xFF] False = 18446744073709551615
   \<and> localtime_string edt 18446744073709551615 = Inl ValueError
   \<and> unpack [0x7F, 0x16, 0xD7, 0xD5, 0xDE, 0xB1, 0x9D, 0x01] False = 116444736009999999
   \<and> spec_seconds 116444736009999999 = 0
   \<and> spec_fraction 116444736009999999 = 9999999
   \<and> render_pair edt 0 9999999 = Inr ''1969-12-31 20:00:00.999999900 (EDT)''
   \<and> localtime_string edt 116444736009999999 = Inr ''1969-12-31 20:00:01.999999900 (EDT)''"
proof -
  have "unpack [0xFF, 0xFF, 0xFF, 0xFF, 0xFF, 0xFF, 0xFF, 0xFF] False = 18446744073709551615"
    by (simp add: unpack_def)
  moreover have "localtime_string edt 18446744073709551615 = Inl ValueError"
    by code_simp
  moreover have "unpack [0x7F, 0x16, 0xD7, 0xD5, 0xDE, 0xB1, 0x9D, 0x01] False = 116444736009999999"
    by (simp add: unpack_def)
  moreover have "spec_seconds 116444736009999999 = 0"
    by (simp add: spec_seconds_def)
  moreover have "spec_fraction 116444736009999999 = 9999999"
    by (simp add: spec_fraction_def)
  moreover have "render_pair edt 0 9999999 = Inr ''1969-12-31 20:00:00.999999900 (EDT)''"
    by code_simp
  moreover have "localtime_string edt 116444736009999999 = Inr ''1969-12-31 20:00:01.999999900 (EDT)''"
    by code_simp
  ultimately show ?thesis by (simp only: simp_thms)
qed

text \<open>
  C8, amended. For every 8-byte little-endian unsigned tick count and every UTC offset of
  the host: when the count is positive and its fraction \<open>ticks mod 10000000\<close> is at most
  9997558, the decoder returns the string that shows the pair of the specification, the
  whole seconds \<open>(ticks - 116444736000000000) div 10000000\<close> as calendar time of the host
  and the fraction in seven digits, and it raises where the calendar conversion of those
  seconds raises, as it does for a year above 9999. Whenever the decoder returns a string,
  what follows the 19 characters of date and time is the fraction \<open>ticks mod 10000000\<close> in
  seven digits and \<open>00 (EDT)\<close>. The tick count 0 does not raise: it is shown as
  \<open>1601-01-01 00:00:00\<close>, counted from the calendar epoch 1970-01-01 without the host's
  offset. Above the fraction 9997558 the second shown is left open: for tick counts below
  \<open>2 ^ 64\<close> the float quotient is off by less than \<open>2 ^ -12\<close> s, which there can reach the
  next second.
\<close>

theorem C8_floor_seconds_below_rounding_band:
  assumes "length data = 8" and "ticks = unpack data False"
  shows "(0 < ticks \<and> spec_fraction ticks \<le> 9997558 \<longrightarrow>
            localtime_string utcoffset ticks
              = render_pair utcoffset (spec_seconds ticks) (spec_fraction ticks))
         \<and> (\<forall>s. localtime_string utcoffset ticks = Inr s \<longrightarrow>
               drop 19 s = ''.'' @ dec_digits 7 (spec_fraction ticks) @ ''00 (EDT)'')
         \<and> localtime_string utcoffset 0 = Inr ''1601-01-01 00:00:00.000000000 (EDT)''"
proof (intro conjI impI allI)
  assume "0 < ticks \<and> spec_fraction ticks \<le> 9997558"
  moreover from unpack_8_bytes(2) [OF assms(1)] assms(2) have "ticks < 2 ^ 64" by simp
  ultimately show "localtime_string utcoffset ticks
      = render_pair utcoffset (spec_seconds ticks) (spec_fraction ticks)"
    by (intro localtime_string_floor) (simp_all add: spec_fraction_def)
next
  fix s
  assume "localtime_string utcoffset ticks = Inr s"
  then show "drop 19 s = ''.'' @ dec_digits 7 (spec_fraction ticks) @ ''00 (EDT)''"
    unfolding spec_fraction_def by (rule localtime_string_suffix)
next
  show "localtime_string utcoffset 0 = Inr ''1601-01-01 00:00:00.000000000 (EDT)''"
    by (rule localtime_string_zero)
qed

theorem C8_floor_seconds_below_rounding_band_witness:
  "length [0x87, 0x36, 0x7B, 0x25, 0x9F, 0x4F, 0xD6, 0x01 :: byte] = 8
   \<and> unpack [0x87, 0x36, 0x7B, 0x25, 0x9F, 0x4F, 0xD6, 0x01] False = 132380784001234567
   \<and> 0 < (132380784001234567 :: int)
   \<and> spec_fraction 132380784001234567 \<le> 9997558
   \<and> spec_seconds 132380784001234567 = 1593604800
   \<and> localtime_string edt 132380784001234567 = Inr ''2020-07-01 08:00:00.123456700 (EDT)''
   \<and> drop 19 ''2020-07-01 08:00:00.123456700 (EDT)'' = ''.123456700 (EDT)''"
proof -
  have len: "length [0x87, 0x36, 0x7B, 0x25, 0x9F, 0x4F, 0xD6, 0x01 :: byte] = 8"
    by simp
  have ticks: "132380784001234567 = unpack [0x87, 0x36, 0x7B, 0x25, 0x9F, 0x4F, 0xD6, 0x01] False"
    by (simp add: unpack_def)
  have pos: "0 < (132380784001234567 :: int)"
    by simp
  have band: "spec_fraction 132380784001234567 \<le> 9997558"
    by (simp add: spec_fraction_def)
  have sec: "spec_seconds 132380784001234567 = 1593604800"
    by (simp add: spec_seconds_def)
  have shown: "render_pair edt (spec_seconds 132380784001234567) (spec_fraction 132380784001234567)
      = Inr ''2020-07-01 08:00:00.123456700 (EDT)''"
    by code_simp
  have digits: "''.'' @ dec_digits 7 (spec_fraction 132380784001234567) @ ''00 (EDT)''
      = ''.123456700 (EDT)''"
    by code_simp
  from C8_floor_seconds_below_rounding_band [OF len ticks, of edt] pos band
  have res: "localtime_string edt 132380784001234567 = Inr ''2020-07-01 08:00:00.123456700 (EDT)''"
    by (simp only: shown simp_thms)
  with C8_floor_seconds_below_rounding_band [OF len ticks, of edt]
  have "drop 19 ''2020-07-01 08:00:00.123456700 (EDT)'' = ''.123456700 (EDT)''"
    by (simp only: digits simp_thms)
  with len ticks [symmetric] pos band sec res show ?thesis by (simp only: simp_thms)
qed

text \<open>
  C9 against the code. \<open>parse_std_info_attr\<close> reads the flags through
  \<open>content_offset\<close>, the offset stored at header bytes 20-21, but the four timestamps
  through \<open>parse_time\<close>, which reads at the fixed offset \<open>header_length = 24\<close>. On the
  named record, whose stored content offset is 32, \<open>created\<close> is the tick count made of
  the eight name bytes at 24-31 and the three others are shifted by one field; the tick
  count at content offset 0 is 1. The rendering \<open>localtime_string\<close> is \<open>Inr\<close> here, so
  each timestamp field shows the tick count handed to it.
\<close>

theorem C9_timestamps_read_at_fixed_offset:
  "parse_std_info_attr Inr named_std_info_entry 0x38
     = Some (Inr \<lparr>created = 19140586183458881, modified = 1, mft_modified = 2, accessed = 3,
                 flags = 32, std_info_size = 36, std_info_end = 128\<rparr>)
   \<and> unpack (py_slice named_std_info_attr 20 22) False = 32
   \<and> unpack (py_slice named_std_info_attr (32 + 0) (32 + 8)) False = 1
   \<and> unpack (py_slice named_std_info_attr (24 + 0) (24 + 8)) False = 19140586183458881"
  by (simp add: parse_std_info_attr_def named_std_info_walker parse_time_def bind_err_def
      Let_def named_std_info_attr_fields)

text \<open>
  C10 against the code. For the entry \<open>deleted_directory_entry\<close> the flags field is 2:
  bit 0 is clear, so by the claim the entry is not allocated, but
  \<open>parse_entry_header\<close> computes \<open>flag != 0\<close> and reports it as allocated.
\<close>

theorem C10_allocated_is_flags_nonzero:
  "length deleted_directory_entry = 1024
   \<and> unpack (py_slice deleted_directory_entry 22 24) False = 2
   \<and> \<not> bit (2 :: int) 0
   \<and> allocated (parse_entry_header 5 deleted_directory_entry)"
proof -
  have len: "int (length (FILE_signature @ replicate 18 (0 :: byte))) = 22"
    by (simp add: FILE_signature_def)
  have "py_slice deleted_directory_entry (22 + 0) (22 + 2) = py_slice [0x02, 0x00] 0 2"
    unfolding deleted_directory_entry_def len [symmetric]
    by (rule py_slice_mid) simp_all
  moreover have "unpack (py_slice [0x02, 0x00] 0 2) False = 2"
    by (simp add: py_slice_def clamp_index_def unpack_def)
  ultimately have flag: "unpack (py_slice deleted_directory_entry 22 24) False = 2"
    by simp
  have "length deleted_directory_entry = 1024"
    by (simp add: deleted_directory_entry_def FILE_signature_def)
  with flag show ?thesis
    by (simp add: parse_entry_header_def Let_def)
qed

end
